theory Spec2Isabelle
  imports Complex_Main
begin

section \<open>Stripe patterns on surfaces: isoline extraction and energy assembly\<close>

text \<open>
  A shallow embedding of \<^verbatim>\<open>src/surface/stripe_patterns.cpp\<close>.

  Numbers: a C++ \<^verbatim>\<open>double\<close> is modelled as a \<^typ>\<open>real\<close> and the constant
  \<^verbatim>\<open>PI\<close> as \<^term>\<open>pi\<close>, so arithmetic is exact; \<^verbatim>\<open>std::ceil\<close> is \<^term>\<open>ceiling\<close>.
  Rounding decides one property, the range of the barycentric parameter of a crossing:
  for it the crossing test is modelled a second time, on binary64 numbers with every
  operation rounded.
  A \<^verbatim>\<open>Vector2\<close> is a \<^typ>\<open>complex\<close> number: its product is the complex product,
  \<^verbatim>\<open>Vector2::fromAngle\<close> is \<^term>\<open>cis\<close> and \<^verbatim>\<open>arg()\<close> is \<^term>\<open>Arg\<close>.

  Mesh elements are handles, modelled as natural numbers. The halfedge mesh and the
  geometry cache are collaborators whose code is not part of the sources at hand; they
  enter as records of navigation functions and per-element quantities.
\<close>

subsection \<open>The mesh and geometry collaborators\<close>

type_synonym Vertex = nat
type_synonym Halfedge = nat
type_synonym Edge = nat
type_synonym Face = nat
type_synonym Corner = nat

record SurfaceMesh =
  vertices :: "Vertex list"
  edges :: "Edge list"
  faces :: "Face list"
  adjacentHalfedges :: "Face \<Rightarrow> Halfedge list"
  face_halfedge :: "Face \<Rightarrow> Halfedge"
  edge_halfedge :: "Edge \<Rightarrow> Halfedge"
  isBoundary :: "Edge \<Rightarrow> bool"
  firstVertex :: "Edge \<Rightarrow> Vertex"
  secondVertex :: "Edge \<Rightarrow> Vertex"
  "next" :: "Halfedge \<Rightarrow> Halfedge"
  twin :: "Halfedge \<Rightarrow> Halfedge"
  face :: "Halfedge \<Rightarrow> Face"
  edge :: "Halfedge \<Rightarrow> Edge"
  vertex :: "Halfedge \<Rightarrow> Vertex"
  tailVertex :: "Halfedge \<Rightarrow> Vertex"
  tipVertex :: "Halfedge \<Rightarrow> Vertex"
  corner :: "Halfedge \<Rightarrow> Corner"

text \<open>
  Modelled from the spec: the boundary-loop test of the mesh collaborator (its code is
  not among the sources). \<^verbatim>\<open>mesh.faces()\<close> enumerates the faces of the mesh; the only
  other face handles that navigation can reach are the boundary loops, which close the
  mesh along its boundary and carry no per-face data.
\<close>

definition isBoundaryLoop :: "SurfaceMesh \<Rightarrow> Face \<Rightarrow> bool" where
  "isBoundaryLoop m f \<longleftrightarrow> f \<notin> set (faces m)"

type_synonym Vector3 = "real \<times> real \<times> real"

definition scale3 :: "real \<Rightarrow> Vector3 \<Rightarrow> Vector3" where
  "scale3 a v = (case v of (x, y, z) \<Rightarrow> (a * x, a * y, a * z))"

definition add3 :: "Vector3 \<Rightarrow> Vector3 \<Rightarrow> Vector3" where
  "add3 u v = (case u of (x, y, z) \<Rightarrow> case v of (x', y', z') \<Rightarrow> (x + x', y + y', z + z'))"

record Geometry =
  mesh :: SurfaceMesh
  edgeLengths :: "Edge \<Rightarrow> real"
  vertexIndices :: "Vertex \<Rightarrow> nat"
  halfedgeVectorsInVertex :: "Halfedge \<Rightarrow> complex"
  transportVectorsAlongHalfedge :: "Halfedge \<Rightarrow> complex"
  halfedgeCotanWeights :: "Halfedge \<Rightarrow> real"
  vertexPositions :: "Vertex \<Rightarrow> Vector3"

datatype error = runtime_error string | null_dereference

subsection \<open>Crossings of a multiple of \<open>2\<pi>\<close> along an edge\<close>

text \<open>
  \<^verbatim>\<open>bool crossesModulo2Pi(double val1, double val2, double& bary)\<close>: the result is
  \<open>Some bary\<close> when the function returns true (and has written \<open>bary\<close>), \<open>None\<close> when it
  returns false (and has left \<open>bary\<close> alone).
\<close>

definition crossesModulo2Pi :: "real \<Rightarrow> real \<Rightarrow> real option" where
  "crossesModulo2Pi val1 val2 =
     (if val1 = val2 then None
      else if val1 < val2 then
        (let isoval = 2 * pi * of_int \<lceil>val1 / (2 * pi)\<rceil> in
         if val2 > isoval then Some ((isoval - val2) / (val1 - val2)) else None)
      else
        (let isoval = 2 * pi * of_int \<lceil>val2 / (2 * pi)\<rceil> in
         if val1 > isoval then Some ((isoval - val2) / (val1 - val2)) else None))"

subsection \<open>The crossing test in double precision\<close>

text \<open>
  A \<^verbatim>\<open>double\<close> is a binary64 number: a real number with 53 significant bits and a
  binary exponent from \<open>-1022\<close> to \<open>1023\<close> (or a subnormal number, a multiple of
  \<open>2 powr (-1074)\<close> below \<open>2 powr (-1022)\<close>), an infinity, or not a number. The sign
  of a zero is not modelled: no comparison sees it, and the division by a zero, whose
  result depends on it, is written out for the positive zero (the crossing test divides
  by \<^verbatim>\<open>2 * PI\<close> and by the difference of two unequal doubles, which is not zero).
\<close>

datatype double = Finite real | PlusInfinity | MinusInfinity | NaN

text \<open>
  An arithmetic operation returns the exact result rounded to the nearest double, a tie
  going to the neighbour whose last bit is even. \<^term>\<open>quantum x\<close> is the distance
  between neighbouring doubles at the magnitude of \<open>x\<close>; a result that rounds to
  \<open>2 ^ 1024\<close> or beyond in magnitude is an infinity.
\<close>

definition binade :: "real \<Rightarrow> int" where
  "binade x = max \<lfloor>log 2 \<bar>x\<bar>\<rfloor> (- 1022)"

definition quantum :: "real \<Rightarrow> real" where
  "quantum x = 2 powr of_int (binade x - 52)"

definition round_half_even :: "real \<Rightarrow> int" where
  "round_half_even q =
     (let n = \<lfloor>q\<rfloor> in
      if q - of_int n < 1 / 2 then n
      else if 1 / 2 < q - of_int n then n + 1
      else if even n then n else n + 1)"

definition overflow_threshold :: real where
  "overflow_threshold = 2 ^ 1024"

definition round_binary64 :: "real \<Rightarrow> double" where
  "round_binary64 x =
     (if x = 0 then Finite 0
      else
        (let y = of_int (round_half_even (x / quantum x)) * quantum x in
         if overflow_threshold \<le> y then PlusInfinity
         else if y \<le> - overflow_threshold then MinusInfinity
         else Finite y))"

text \<open>
  The operations of the crossing test: \<^verbatim>\<open>-\<close>, \<^verbatim>\<open>*\<close>, \<^verbatim>\<open>/\<close>, \<^verbatim>\<open>std::ceil\<close>,
  \<^verbatim>\<open><\<close> and \<^verbatim>\<open>==\<close>. The ceiling of a double is a double, so it is not rounded.
\<close>

fun double_neg :: "double \<Rightarrow> double" where
  "double_neg (Finite x) = Finite (- x)"
| "double_neg PlusInfinity = MinusInfinity"
| "double_neg MinusInfinity = PlusInfinity"
| "double_neg NaN = NaN"

fun double_sub :: "double \<Rightarrow> double \<Rightarrow> double" where
  "double_sub (Finite x) (Finite y) = round_binary64 (x - y)"
| "double_sub NaN b = NaN"
| "double_sub a NaN = NaN"
| "double_sub PlusInfinity PlusInfinity = NaN"
| "double_sub MinusInfinity MinusInfinity = NaN"
| "double_sub PlusInfinity b = PlusInfinity"
| "double_sub MinusInfinity b = MinusInfinity"
| "double_sub (Finite x) b = double_neg b"

fun double_mul :: "double \<Rightarrow> double \<Rightarrow> double" where
  "double_mul (Finite x) (Finite y) = round_binary64 (x * y)"
| "double_mul NaN b = NaN"
| "double_mul a NaN = NaN"
| "double_mul (Finite x) b = (if x = 0 then NaN else if 0 < x then b else double_neg b)"
| "double_mul a (Finite y) = (if y = 0 then NaN else if 0 < y then a else double_neg a)"
| "double_mul a b = (if a = b then PlusInfinity else MinusInfinity)"

fun double_div :: "double \<Rightarrow> double \<Rightarrow> double" where
  "double_div (Finite x) (Finite y) =
     (if y = 0 then (if x = 0 then NaN else if 0 < x then PlusInfinity else MinusInfinity)
      else round_binary64 (x / y))"
| "double_div NaN b = NaN"
| "double_div a NaN = NaN"
| "double_div (Finite x) b = Finite 0"
| "double_div a (Finite y) = (if 0 \<le> y then a else double_neg a)"
| "double_div a b = NaN"

fun double_ceil :: "double \<Rightarrow> double" where
  "double_ceil (Finite x) = Finite (of_int \<lceil>x\<rceil>)"
| "double_ceil a = a"

fun double_less :: "double \<Rightarrow> double \<Rightarrow> bool" where
  "double_less (Finite x) (Finite y) \<longleftrightarrow> x < y"
| "double_less NaN b \<longleftrightarrow> False"
| "double_less a NaN \<longleftrightarrow> False"
| "double_less a MinusInfinity \<longleftrightarrow> False"
| "double_less PlusInfinity b \<longleftrightarrow> False"
| "double_less a b \<longleftrightarrow> True"

fun double_eq :: "double \<Rightarrow> double \<Rightarrow> bool" where
  "double_eq NaN b \<longleftrightarrow> False"
| "double_eq a NaN \<longleftrightarrow> False"
| "double_eq a b \<longleftrightarrow> a = b"

text \<open>
  Modelled from the spec: the constant \<^verbatim>\<open>PI\<close> (its declaration is not among the
  sources) is the double nearest to \<open>\<pi>\<close>, \<open>884279719003555 / 2 ^ 48\<close>.
\<close>

definition PI :: double where
  "PI = Finite (884279719003555 / 2 ^ 48)"

text \<open>
  \<^verbatim>\<open>bool crossesModulo2Pi(double val1, double val2, double& bary)\<close> on doubles;
  \<^verbatim>\<open>2 * PI * std::ceil(v / (2 * PI))\<close> is \<^verbatim>\<open>(2 * PI) * std::ceil(v / (2 * PI))\<close>, and
  \<^verbatim>\<open>val2 > isoval\<close> is \<^verbatim>\<open>isoval < val2\<close>.
\<close>

definition crossesModulo2Pi_double :: "double \<Rightarrow> double \<Rightarrow> double option" where
  "crossesModulo2Pi_double val1 val2 =
     (if double_eq val1 val2 then None
      else if double_less val1 val2 then
        (let isoval = double_mul (double_mul (Finite 2) PI)
                        (double_ceil (double_div val1 (double_mul (Finite 2) PI))) in
         if double_less isoval val2
         then Some (double_div (double_sub isoval val2) (double_sub val1 val2)) else None)
      else
        (let isoval = double_mul (double_mul (Finite 2) PI)
                        (double_ceil (double_div val2 (double_mul (Finite 2) PI))) in
         if double_less isoval val1
         then Some (double_div (double_sub isoval val2) (double_sub val1 val2)) else None))"

subsection \<open>Isoline extraction\<close>

record Isoline =
  barycenters :: "(Halfedge \<times> real) list"
  open_line :: bool

text \<open>The variables of one walk away from the seed face (the \<^verbatim>\<open>while\<close> loop).\<close>

record walk_state =
  visited :: "Face set"
  iso_open :: bool
  isoPts :: "(Halfedge \<times> real) list"
  prevFace :: Face
  curFace :: Face
  done_flag :: bool

text \<open>
  The inner \<^verbatim>\<open>for (Halfedge he : curFace.adjacentHalfedges())\<close>: the first halfedge
  that does not lead back to \<open>prevFace\<close> and carries a crossing decides the step, and
  the loop breaks there.
\<close>

fun scanFace :: "SurfaceMesh \<Rightarrow> (Corner \<Rightarrow> real) \<Rightarrow> (Face \<Rightarrow> int) \<Rightarrow> (Face \<Rightarrow> int) \<Rightarrow> Face
    \<Rightarrow> Halfedge list \<Rightarrow> walk_state \<Rightarrow> walk_state" where
  "scanFace m stripeValues stripesIndices fieldIndices f [] s = s"
| "scanFace m stripeValues stripesIndices fieldIndices f (he # hes) s =
     (let oppFace = face m (twin m he) in
      if oppFace = prevFace s then scanFace m stripeValues stripesIndices fieldIndices f hes s
      else
        (case crossesModulo2Pi (stripeValues (corner m he)) (stripeValues (corner m (next m he))) of
           None \<Rightarrow> scanFace m stripeValues stripesIndices fieldIndices f hes s
         | Some bary \<Rightarrow>
             if \<not> isBoundaryLoop m oppFace \<and> oppFace \<in> visited s then
               s\<lparr>done_flag := True, iso_open := (if oppFace = f then False else iso_open s)\<rparr>
             else
               s\<lparr>done_flag := (isBoundaryLoop m oppFace \<or> stripesIndices oppFace \<noteq> 0
                                \<or> fieldIndices oppFace \<noteq> 0),
                 isoPts := isoPts s @ [(he, bary)],
                 prevFace := curFace s,
                 curFace := oppFace\<rparr>))"

definition walk_cond :: "SurfaceMesh \<Rightarrow> (Face \<Rightarrow> int) \<Rightarrow> (Face \<Rightarrow> int) \<Rightarrow> walk_state \<Rightarrow> bool" where
  "walk_cond m stripesIndices fieldIndices s \<longleftrightarrow>
     \<not> isBoundaryLoop m (curFace s) \<and> \<not> done_flag s
     \<and> stripesIndices (curFace s) = 0 \<and> fieldIndices (curFace s) = 0"

definition walk_body :: "SurfaceMesh \<Rightarrow> (Corner \<Rightarrow> real) \<Rightarrow> (Face \<Rightarrow> int) \<Rightarrow> (Face \<Rightarrow> int) \<Rightarrow> Face
    \<Rightarrow> walk_state \<Rightarrow> walk_state" where
  "walk_body m stripeValues stripesIndices fieldIndices f s =
     scanFace m stripeValues stripesIndices fieldIndices f (adjacentHalfedges m (curFace s))
       (s\<lparr>visited := insert (curFace s) (visited s), done_flag := True\<rparr>)"

lemma scanFace_visited:
  "visited (scanFace m sv si fi f hes s) = visited s"
  by (induction hes) (auto simp: Let_def split: option.splits)

lemma scanFace_continues:
  assumes "done_flag s" "\<not> done_flag (scanFace m sv si fi f hes s)"
  shows "curFace (scanFace m sv si fi f hes s) \<notin> visited s
         \<and> \<not> isBoundaryLoop m (curFace (scanFace m sv si fi f hes s))"
  using assms by (induction hes) (auto simp: Let_def split: option.splits if_splits)

definition walk_measure :: "SurfaceMesh \<Rightarrow> (Face \<Rightarrow> int) \<Rightarrow> (Face \<Rightarrow> int) \<Rightarrow> walk_state \<Rightarrow> nat" where
  "walk_measure m si fi s =
     (if walk_cond m si fi s
      then card {g \<in> set (faces m). g \<notin> visited s} + (if curFace s \<in> visited s then 2 else 1)
      else 0)"

lemma walk_measure_decreases:
  assumes "walk_cond m si fi s"
  shows "walk_measure m si fi (walk_body m sv si fi f s) < walk_measure m si fi s"
proof (cases "walk_cond m si fi (walk_body m sv si fi f s)")
  case False
  then show ?thesis using assms by (simp add: walk_measure_def)
next
  case True
  let ?s0 = "s\<lparr>visited := insert (curFace s) (visited s), done_flag := True\<rparr>"
  let ?s' = "walk_body m sv si fi f s"
  have vis: "visited ?s' = insert (curFace s) (visited s)"
    by (simp add: walk_body_def scanFace_visited)
  have nd: "\<not> done_flag ?s'" using True by (simp add: walk_cond_def)
  have fresh: "curFace ?s' \<notin> insert (curFace s) (visited s)"
    using scanFace_continues[of ?s0 m sv si fi f "adjacentHalfedges m (curFace s)"] nd
    by (simp add: walk_body_def)
  have cur_in: "curFace s \<in> set (faces m)"
    using assms by (simp add: walk_cond_def isBoundaryLoop_def)
  let ?U = "{g \<in> set (faces m). g \<notin> visited s}"
  let ?U' = "{g \<in> set (faces m). g \<notin> insert (curFace s) (visited s)}"
  have sub: "?U' = ?U - {curFace s}" by auto
  have fin: "finite ?U" by simp
  show ?thesis
  proof (cases "curFace s \<in> visited s")
    case True
    then have "?U' = ?U" by auto
    with \<open>walk_cond m si fi ?s'\<close> assms fresh vis True show ?thesis
      by (simp add: walk_measure_def)
  next
    case False
    then have "curFace s \<in> ?U" using cur_in by simp
    then have "card ?U' < card ?U"
      unfolding sub using fin by (meson card_Diff1_less)
    with \<open>walk_cond m si fi ?s'\<close> assms fresh vis False show ?thesis
      by (simp add: walk_measure_def)
  qed
qed

text \<open>
  The \<^verbatim>\<open>while\<close> loop of one walk. It ends: every round that goes on marks a face of
  the mesh that was not marked before, except possibly the first.
\<close>

function walk :: "SurfaceMesh \<Rightarrow> (Corner \<Rightarrow> real) \<Rightarrow> (Face \<Rightarrow> int) \<Rightarrow> (Face \<Rightarrow> int) \<Rightarrow> Face
    \<Rightarrow> walk_state \<Rightarrow> walk_state" where
  "walk m stripeValues stripesIndices fieldIndices f s =
     (if walk_cond m stripesIndices fieldIndices s
      then walk m stripeValues stripesIndices fieldIndices f
             (walk_body m stripeValues stripesIndices fieldIndices f s)
      else s)"
  by pat_completeness auto
termination
  by (relation "measure (\<lambda>(m, sv, si, fi, f, s). walk_measure m si fi s)")
     (auto simp: walk_measure_decreases)

declare walk.simps [simp del]

text \<open>
  The variables of the seed face's \<^verbatim>\<open>for (Halfedge h : f.adjacentHalfedges())\<close>: the
  visited marks, the isoline under construction and the number of walks started.
\<close>

record seed_state =
  visitedF :: "Face set"
  isoF :: Isoline
  nbOfPieces :: int

definition startWalk :: "Face set \<Rightarrow> bool \<Rightarrow> Halfedge \<Rightarrow> real \<Rightarrow> Face \<Rightarrow> Face \<Rightarrow> walk_state" where
  "startWalk vis opn h bary f cur =
     \<lparr>visited = vis, iso_open = opn, isoPts = [(h, bary)], prevFace = f, curFace = cur,
      done_flag = False\<rparr>"

fun traceFace :: "SurfaceMesh \<Rightarrow> (Corner \<Rightarrow> real) \<Rightarrow> (Face \<Rightarrow> int) \<Rightarrow> (Face \<Rightarrow> int) \<Rightarrow> Face
    \<Rightarrow> Halfedge list \<Rightarrow> seed_state \<Rightarrow> seed_state" where
  "traceFace m stripeValues stripesIndices fieldIndices f [] t = t"
| "traceFace m stripeValues stripesIndices fieldIndices f (h # hs) t =
     (case crossesModulo2Pi (stripeValues (corner m h)) (stripeValues (corner m (next m h))) of
        None \<Rightarrow> traceFace m stripeValues stripesIndices fieldIndices f hs t
      | Some bary \<Rightarrow>
          (let s = walk m stripeValues stripesIndices fieldIndices f
                     (startWalk (visitedF t) (open_line (isoF t)) h bary f (face m (twin m h)));
               bs = (if length (barycenters (isoF t)) = 0
                     then barycenters (isoF t) @ rev (isoPts s)
                     else barycenters (isoF t) @ isoPts s)
           in traceFace m stripeValues stripesIndices fieldIndices f hs
                \<lparr>visitedF = visited s,
                 isoF = \<lparr>barycenters = bs, open_line = iso_open s\<rparr>,
                 nbOfPieces = nbOfPieces t + 1\<rparr>))"

definition branch_message :: string where
  "branch_message = ''Isolines should only branch out on singularities''"

text \<open>
  The outer \<^verbatim>\<open>for (Face f : mesh.faces())\<close>, on the faces still to come, with the
  visited marks and the isolines found so far. The exception ends it.
\<close>

fun facesLoop :: "SurfaceMesh \<Rightarrow> (Corner \<Rightarrow> real) \<Rightarrow> (Face \<Rightarrow> int) \<Rightarrow> (Face \<Rightarrow> int)
    \<Rightarrow> Face list \<Rightarrow> Face set \<Rightarrow> Isoline list \<Rightarrow> error + Isoline list" where
  "facesLoop m stripeValues stripesIndices fieldIndices [] vis isolines = Inr isolines"
| "facesLoop m stripeValues stripesIndices fieldIndices (f # fs) vis isolines =
     (if f \<in> vis \<or> stripesIndices f \<noteq> 0 \<or> fieldIndices f \<noteq> 0
      then facesLoop m stripeValues stripesIndices fieldIndices fs vis isolines
      else
        (let t = traceFace m stripeValues stripesIndices fieldIndices f (adjacentHalfedges m f)
                   \<lparr>visitedF = insert f vis,
                    isoF = \<lparr>barycenters = [], open_line = True\<rparr>,
                    nbOfPieces = 0\<rparr>;
             isolines' = (if nbOfPieces t > 0 then isolines @ [isoF t] else isolines)
         in if nbOfPieces t > 2 then Inl (runtime_error branch_message)
            else facesLoop m stripeValues stripesIndices fieldIndices fs (visitedF t) isolines'))"

definition extractIsolinesFromStripePattern :: "Geometry \<Rightarrow> (Corner \<Rightarrow> real) \<Rightarrow> (Face \<Rightarrow> int)
    \<Rightarrow> (Face \<Rightarrow> int) \<Rightarrow> error + Isoline list" where
  "extractIsolinesFromStripePattern geometry stripeValues stripesIndices fieldIndices =
     facesLoop (mesh geometry) stripeValues stripesIndices fieldIndices
       (faces (mesh geometry)) {} []"

subsection \<open>Polyline extraction\<close>

text \<open>
  The loop over the barycenters of one isoline, on the state \<open>(i, points, edges)\<close>;
  \<open>n\<close> is \<^verbatim>\<open>static_cast<int>(isoline.barycenters.size())\<close>.
\<close>

fun barycentersLoop :: "Geometry \<Rightarrow> int \<Rightarrow> int \<Rightarrow> (Halfedge \<times> real) list
    \<Rightarrow> int \<times> Vector3 list \<times> (int \<times> int) list \<Rightarrow> int \<times> Vector3 list \<times> (int \<times> int) list" where
  "barycentersLoop geometry start n [] st = st"
| "barycentersLoop geometry start n ((h, bary) # ps) (i, points, polyEdges) =
     barycentersLoop geometry start n ps
       (i + 1,
        points @ [add3 (scale3 bary (vertexPositions geometry (tailVertex (mesh geometry) h)))
                       (scale3 (1 - bary) (vertexPositions geometry (tipVertex (mesh geometry) h)))],
        if i < start + n - 1 then polyEdges @ [(i, i + 1)] else polyEdges)"

fun isolinesLoop :: "Geometry \<Rightarrow> Isoline list
    \<Rightarrow> int \<times> Vector3 list \<times> (int \<times> int) list \<Rightarrow> int \<times> Vector3 list \<times> (int \<times> int) list" where
  "isolinesLoop geometry [] st = st"
| "isolinesLoop geometry (isoline # rest) (i, points, polyEdges) =
     (let start = i in
      case barycentersLoop geometry start (int (length (barycenters isoline)))
             (barycenters isoline) (i, points, polyEdges) of
        (i', points', polyEdges') \<Rightarrow>
          isolinesLoop geometry rest
            (i', points',
             if \<not> open_line isoline then polyEdges' @ [(i' - 1, start)] else polyEdges'))"

definition extractPolylinesFromStripePattern :: "Geometry \<Rightarrow> (Corner \<Rightarrow> real) \<Rightarrow> (Face \<Rightarrow> int)
    \<Rightarrow> (Face \<Rightarrow> int) \<Rightarrow> error + Vector3 list \<times> (int \<times> int) list" where
  "extractPolylinesFromStripePattern geometry values stripesIndices fieldIndices =
     (case extractIsolinesFromStripePattern geometry values stripesIndices fieldIndices of
        Inl e \<Rightarrow> Inl e
      | Inr isolines \<Rightarrow>
          (case isolinesLoop geometry isolines (0, [], []) of
             (i, points, polyEdges) \<Rightarrow> Inr (points, polyEdges)))"

subsection \<open>The one-form along an edge\<close>

text \<open>
  \<^verbatim>\<open>dot(a, b)\<close> of two \<^verbatim>\<open>Vector2\<close>.
\<close>

definition dot2 :: "complex \<Rightarrow> complex \<Rightarrow> real" where
  "dot2 a b = Re a * Re b + Im a * Im b"

text \<open>
  The out-parameter \<^verbatim>\<open>bool* crossesSheets = nullptr\<close>: \<open>None\<close> is the null pointer,
  \<open>Some a\<close> the address \<open>a\<close> of a \<^verbatim>\<open>bool\<close> variable of the caller.
\<close>

type_synonym bool_ptr = "nat option"

text \<open>
  \<^verbatim>\<open>computeOmega\<close>. The write \<^verbatim>\<open>*crossesSheets = (s < 0)\<close> comes before anything else
  that depends on the pointer; through the null pointer it is the error
  \<^term>\<open>null_dereference\<close>. Otherwise the result carries, next to \<open>omegaIJ\<close>, the
  address written and the value written there, which the caller then reads from its
  variable. The four \<^verbatim>\<open>require...\<close> calls only fill the geometry cache, whose
  quantities are the fields of \<^typ>\<open>Geometry\<close>.
\<close>

definition computeOmega :: "Geometry \<Rightarrow> (Vertex \<Rightarrow> complex) \<Rightarrow> (Vertex \<Rightarrow> real) \<Rightarrow> Edge
    \<Rightarrow> bool_ptr \<Rightarrow> error + real \<times> nat \<times> bool" where
  "computeOmega geometry directionField frequencies e crossesSheets =
     (let Xi = cis (Arg (directionField (firstVertex (mesh geometry) e)) / 2);
          Xj = cis (Arg (directionField (secondVertex (mesh geometry) e)) / 2);
          rij = transportVectorsAlongHalfedge geometry (edge_halfedge (mesh geometry) e);
          s = (if dot2 (rij * Xi) Xj > 0 then 1 else - 1 :: real)
      in case crossesSheets of
           None \<Rightarrow> Inl null_dereference
         | Some a \<Rightarrow>
             (let lij = edgeLengths geometry e;
                  phiI = Arg Xi;
                  phiJ = Arg (of_real s * Xj);
                  thetaI = Arg (halfedgeVectorsInVertex geometry (edge_halfedge (mesh geometry) e));
                  thetaJ = thetaI + Arg rij;
                  omegaIJ = (lij / 2) * (frequencies (firstVertex (mesh geometry) e) * cos (phiI - thetaI)
                                         + frequencies (secondVertex (mesh geometry) e) * cos (phiJ - thetaJ))
              in Inr (omegaIJ, a, s < 0)))"

subsection \<open>The energy matrix\<close>

type_synonym triplet = "nat \<times> nat \<times> real"

text \<open>
  The cotangent weight \<open>w\<close> of an edge, as \<^verbatim>\<open>buildVertexEnergyMatrix\<close> computes it
  inside its loop over the edges.
\<close>

definition cotanWeight :: "Geometry \<Rightarrow> (Face \<Rightarrow> int) \<Rightarrow> Edge \<Rightarrow> real" where
  "cotanWeight geometry branchIndices e =
     (let m = mesh geometry;
          w = 0;
          w = (if branchIndices (face m (edge_halfedge m e)) = 0
               then w + halfedgeCotanWeights geometry (edge_halfedge m e) else w);
          w = (if \<not> isBoundary m e \<and> branchIndices (face m (twin m (edge_halfedge m e))) = 0
               then w + halfedgeCotanWeights geometry (twin m (edge_halfedge m e)) else w)
      in w)"

text \<open>
  The twelve triplets that the loop body appends for one edge, in the order of the
  \<^verbatim>\<open>emplace_back\<close> calls; \<open>rij'\<close> is \<open>rij\<close> after \<^verbatim>\<open>if (crossesSheet) rij *= -1\<close>.
\<close>

definition edgeTriplets :: "Geometry \<Rightarrow> (Face \<Rightarrow> int) \<Rightarrow> Edge \<Rightarrow> real \<Rightarrow> bool \<Rightarrow> triplet list" where
  "edgeTriplets geometry branchIndices e omegaIJ crossesSheet =
     (let m = mesh geometry;
          w = cotanWeight geometry branchIndices e;
          i = 2 * vertexIndices geometry (vertex m (edge_halfedge m e));
          j = 2 * vertexIndices geometry (vertex m (twin m (edge_halfedge m e)));
          rij = of_real w * cis omegaIJ;
          rij' = (if crossesSheet then rij * (- 1) else rij)
      in [(i + 0, i + 0, w), (i + 1, i + 1, w),
          (j + 0, j + 0, w), (j + 1, j + 1, w),
          (i + 0, j + 0, - Re rij), (i + 1, j + 0, Im rij),
          (j + 0, i + 0, - Re rij), (j + 0, i + 1, Im rij),
          (i + 0, j + 1, - Im rij'), (i + 1, j + 1, - Re rij'),
          (j + 1, i + 0, - Im rij'), (j + 1, i + 1, - Re rij')])"

text \<open>
  The loop over the edges. The local \<^verbatim>\<open>bool crossesSheet\<close> stands at address 0 and is
  read after \<^verbatim>\<open>computeOmega\<close> has written it.
\<close>

fun edgesLoop :: "Geometry \<Rightarrow> (Vertex \<Rightarrow> complex) \<Rightarrow> (Face \<Rightarrow> int) \<Rightarrow> (Vertex \<Rightarrow> real)
    \<Rightarrow> Edge list \<Rightarrow> triplet list \<Rightarrow> error + triplet list" where
  "edgesLoop geometry directionField branchIndices frequencies [] triplets = Inr triplets"
| "edgesLoop geometry directionField branchIndices frequencies (e # es) triplets =
     (case computeOmega geometry directionField frequencies e (Some 0) of
        Inl err \<Rightarrow> Inl err
      | Inr (omegaIJ, a, crossesSheet) \<Rightarrow>
          edgesLoop geometry directionField branchIndices frequencies es
            (triplets @ edgeTriplets geometry branchIndices e omegaIJ crossesSheet))"

text \<open>
  Modelled from the spec: the sparse matrices of the linear-algebra collaborator (not
  among the sources): construction from (row, column, value) triplets, where the
  entries of triplets with the same position add up, and the sum with a multiple of the
  identity.
\<close>

record SparseMatrix =
  rows :: nat
  cols :: nat
  coeff :: "nat \<Rightarrow> nat \<Rightarrow> real"

definition setFromTriplets :: "nat \<Rightarrow> nat \<Rightarrow> triplet list \<Rightarrow> SparseMatrix" where
  "setFromTriplets nr nc ts =
     \<lparr>rows = nr, cols = nc,
      coeff = (\<lambda>r c. \<Sum>t\<leftarrow>ts. if fst t = r \<and> fst (snd t) = c then snd (snd t) else 0)\<rparr>"

definition shiftDiagonal :: "real \<Rightarrow> SparseMatrix \<Rightarrow> SparseMatrix" where
  "shiftDiagonal a A = A\<lparr>coeff := (\<lambda>r c. coeff A r c + (if r = c \<and> r < rows A then a else 0))\<rparr>"

definition transposeM :: "SparseMatrix \<Rightarrow> SparseMatrix" where
  "transposeM A = \<lparr>rows = cols A, cols = rows A, coeff = (\<lambda>r c. coeff A c r)\<rparr>"

definition buildVertexEnergyMatrix :: "Geometry \<Rightarrow> (Vertex \<Rightarrow> complex) \<Rightarrow> (Face \<Rightarrow> int)
    \<Rightarrow> (Vertex \<Rightarrow> real) \<Rightarrow> error + SparseMatrix" where
  "buildVertexEnergyMatrix geometry directionField branchIndices frequencies =
     (case edgesLoop geometry directionField branchIndices frequencies (edges (mesh geometry)) [] of
        Inl err \<Rightarrow> Inl err
      | Inr triplets \<Rightarrow>
          (let n = 2 * length (vertices (mesh geometry))
           in Inr (shiftDiagonal (1 / 10 ^ 4) (setFromTriplets n n triplets))))"

subsection \<open>Texture coordinates\<close>

text \<open>
  \<^verbatim>\<open>std::round\<close>, which rounds halves away from zero, followed by the conversion to
  \<^verbatim>\<open>int\<close>.
\<close>

definition cround :: "real \<Rightarrow> int" where
  "cround x = (if 0 \<le> x then \<lfloor>x + 1 / 2\<rfloor> else \<lceil>x - 1 / 2\<rceil>)"

text \<open>
  The body of the loop over the faces in \<^verbatim>\<open>computeTextureCoordinates\<close>: the three
  corner values and the index of the face. The three flags stand at the addresses 0, 1
  and 2. Division of \<^verbatim>\<open>Vector2\<close> is complex division.
\<close>

definition faceTextureCoordinates :: "Geometry \<Rightarrow> (Vertex \<Rightarrow> complex) \<Rightarrow> (Vertex \<Rightarrow> real)
    \<Rightarrow> (Vertex \<Rightarrow> complex) \<Rightarrow> Face \<Rightarrow> error + (real \<times> real \<times> real) \<times> int" where
  "faceTextureCoordinates geometry directionField frequencies parameterization f =
     (let m = mesh geometry;
          hij = face_halfedge m f; hjk = next m hij; hki = next m hjk;
          psiI = parameterization (vertex m hij);
          psiJ = parameterization (vertex m hjk);
          psiK = parameterization (vertex m hki);
          cIJ = (if edge_halfedge m (edge m hij) \<noteq> hij then - 1 else 1 :: real);
          cJK = (if edge_halfedge m (edge m hjk) \<noteq> hjk then - 1 else 1 :: real);
          cKI = (if edge_halfedge m (edge m hki) \<noteq> hki then - 1 else 1 :: real)
      in case computeOmega geometry directionField frequencies (edge m hij) (Some 0) of
           Inl err \<Rightarrow> Inl err
         | Inr (oIJ, aIJ, crossesSheetsIJ) \<Rightarrow>
        (case computeOmega geometry directionField frequencies (edge m hjk) (Some 1) of
           Inl err \<Rightarrow> Inl err
         | Inr (oJK, aJK, crossesSheetsJK) \<Rightarrow>
        (case computeOmega geometry directionField frequencies (edge m hki) (Some 2) of
           Inl err \<Rightarrow> Inl err
         | Inr (oKI, aKI, crossesSheetsKI) \<Rightarrow>
          (let omegaIJ = cIJ * oIJ; omegaJK = cJK * oJK; omegaKI = cKI * oKI;
               psiJ = (if crossesSheetsIJ then cnj psiJ else psiJ);
               omegaIJ = (if crossesSheetsIJ then omegaIJ * cIJ else omegaIJ);
               omegaJK = (if crossesSheetsIJ then omegaJK * (- cJK) else omegaJK);
               psiK = (if crossesSheetsKI then cnj psiK else psiK);
               omegaKI = (if crossesSheetsKI then omegaKI * (- cKI) else omegaKI);
               omegaJK = (if crossesSheetsKI then omegaJK * cJK else omegaJK);
               rij = cis omegaIJ; rjk = cis omegaJK; rki = cis omegaKI;
               alphaI = Arg psiI;
               alphaJ = alphaI + omegaIJ - Arg (rij * psiI / psiJ);
               alphaK = alphaJ + omegaJK - Arg (rjk * psiJ / psiK);
               alphaL = alphaK + omegaKI - Arg (rki * psiK / psiI)
           in Inr ((alphaI, alphaJ, alphaK), cround ((alphaL - alphaI) / (2 * pi)))))))"

fun textureLoop :: "Geometry \<Rightarrow> (Vertex \<Rightarrow> complex) \<Rightarrow> (Vertex \<Rightarrow> real) \<Rightarrow> (Vertex \<Rightarrow> complex)
    \<Rightarrow> Face list \<Rightarrow> (Corner \<Rightarrow> real) \<times> (Face \<Rightarrow> int) \<Rightarrow> error + (Corner \<Rightarrow> real) \<times> (Face \<Rightarrow> int)" where
  "textureLoop geometry directionField frequencies parameterization [] st = Inr st"
| "textureLoop geometry directionField frequencies parameterization (f # fs) (textureCoordinates, paramIndices) =
     (case faceTextureCoordinates geometry directionField frequencies parameterization f of
        Inl err \<Rightarrow> Inl err
      | Inr ((alphaI, alphaJ, alphaK), index) \<Rightarrow>
          (let m = mesh geometry;
               hij = face_halfedge m f; hjk = next m hij; hki = next m hjk
           in textureLoop geometry directionField frequencies parameterization fs
                (textureCoordinates(corner m hij := alphaI, corner m hjk := alphaJ, corner m hki := alphaK),
                 paramIndices(f := index))))"

definition computeTextureCoordinates :: "Geometry \<Rightarrow> (Vertex \<Rightarrow> complex) \<Rightarrow> (Vertex \<Rightarrow> real)
    \<Rightarrow> (Vertex \<Rightarrow> complex) \<Rightarrow> error + (Corner \<Rightarrow> real) \<times> (Face \<Rightarrow> int)" where
  "computeTextureCoordinates geometry directionField frequencies parameterization =
     textureLoop geometry directionField frequencies parameterization (faces (mesh geometry))
       (\<lambda>c. 0, \<lambda>f. 0)"

section \<open>Notions used in the statements\<close>

text \<open>
  The crossing test of the extraction on the edge of a halfedge; the edges of a face
  that carry a crossing, in the order of the face's halfedges, and their number; and the
  first of them that does not lead back to the previous face, which is the one that the
  inner loop of a walk takes.
\<close>

definition edge_crossing :: "SurfaceMesh \<Rightarrow> (Corner \<Rightarrow> real) \<Rightarrow> Halfedge \<Rightarrow> real option" where
  "edge_crossing m stripeValues h =
     crossesModulo2Pi (stripeValues (corner m h)) (stripeValues (corner m (next m h)))"

definition is_crossing :: "SurfaceMesh \<Rightarrow> (Corner \<Rightarrow> real) \<Rightarrow> Halfedge \<times> real \<Rightarrow> bool" where
  "is_crossing m stripeValues p \<longleftrightarrow>
     crossesModulo2Pi (stripeValues (corner m (fst p))) (stripeValues (corner m (next m (fst p))))
       = Some (snd p)"

definition exits :: "SurfaceMesh \<Rightarrow> (Corner \<Rightarrow> real) \<Rightarrow> Face \<Rightarrow> nat" where
  "exits m stripeValues f =
     length (filter (\<lambda>h. edge_crossing m stripeValues h \<noteq> None) (adjacentHalfedges m f))"




fun seedFaces :: "SurfaceMesh \<Rightarrow> (Corner \<Rightarrow> real) \<Rightarrow> (Face \<Rightarrow> int) \<Rightarrow> (Face \<Rightarrow> int)
    \<Rightarrow> Face list \<Rightarrow> Face set \<Rightarrow> Face list" where
  "seedFaces m stripeValues stripesIndices fieldIndices [] vis = []"
| "seedFaces m stripeValues stripesIndices fieldIndices (f # fs) vis =
     (if f \<in> vis \<or> stripesIndices f \<noteq> 0 \<or> fieldIndices f \<noteq> 0
      then seedFaces m stripeValues stripesIndices fieldIndices fs vis
      else f # seedFaces m stripeValues stripesIndices fieldIndices fs
             (visitedF (traceFace m stripeValues stripesIndices fieldIndices f (adjacentHalfedges m f)
                \<lparr>visitedF = insert f vis,
                 isoF = \<lparr>barycenters = [], open_line = True\<rparr>,
                 nbOfPieces = 0\<rparr>)))"




definition pieces_inv :: "seed_state \<Rightarrow> bool" where
  "pieces_inv t \<longleftrightarrow> 0 \<le> nbOfPieces t \<and> (0 < nbOfPieces t \<longrightarrow> barycenters (isoF t) \<noteq> [])"







text \<open>
  The point of a crossing, and the edges of the polylines in the spec's words: for each
  isoline, starting at index \<open>off\<close>, a consecutive-index edge for each adjacent pair and,
  only if the isoline is closed, one final edge from its last point to its first.
\<close>

definition pointOf :: "Geometry \<Rightarrow> Halfedge \<times> real \<Rightarrow> Vector3" where
  "pointOf geometry p =
     add3 (scale3 (snd p) (vertexPositions geometry (tailVertex (mesh geometry) (fst p))))
          (scale3 (1 - snd p) (vertexPositions geometry (tipVertex (mesh geometry) (fst p))))"

fun polyline_edges :: "int \<Rightarrow> Isoline list \<Rightarrow> (int \<times> int) list" where
  "polyline_edges off [] = []"
| "polyline_edges off (isoline # rest) =
     (let n = int (length (barycenters isoline)) in
      map (\<lambda>k. (k, k + 1)) [off..off + n - 2]
      @ (if open_line isoline then [] else [(off + n - 1, off)])
      @ polyline_edges (off + n) rest)"

text \<open>
  The cotangent weight in the spec's words: the sum, over the one or two triangles
  incident to the edge, of the cotangent weights of those triangles whose branch
  index is 0.
\<close>

definition incidentTriangles :: "SurfaceMesh \<Rightarrow> Edge \<Rightarrow> Halfedge list" where
  "incidentTriangles m e =
     (if isBoundary m e then [edge_halfedge m e] else [edge_halfedge m e, twin m (edge_halfedge m e)])"

definition spec_cotan_weight :: "Geometry \<Rightarrow> (Face \<Rightarrow> int) \<Rightarrow> Edge \<Rightarrow> real" where
  "spec_cotan_weight geometry branchIndices e =
     (\<Sum>h\<leftarrow>incidentTriangles (mesh geometry) e.
        if branchIndices (face (mesh geometry) h) = 0 then halfedgeCotanWeights geometry h else 0)"

text \<open>
The entry at a position that a list of triplets adds up to.
\<close>

definition tsum :: "triplet list \<Rightarrow> nat \<Rightarrow> nat \<Rightarrow> real" where
  "tsum ts r c = (\<Sum>t\<leftarrow>ts. if fst t = r \<and> fst (snd t) = c then snd (snd t) else 0)"

section \<open>Example inputs\<close>

text \<open>
One triangle: face 0 with the halfedges 0, 1, 2; their twins 3, 4, 5 lie on the boundary loop 1.
\<close>

definition single_triangle :: SurfaceMesh where
  "single_triangle =
     \<lparr>vertices = [0, 1, 2], edges = [0, 1, 2], faces = [0],
      adjacentHalfedges = (\<lambda>f. if f = 0 then [0, 1, 2] else [5, 4, 3]),
      face_halfedge = (\<lambda>f. if f = 0 then 0 else 5),
      edge_halfedge = (\<lambda>e. e),
      isBoundary = (\<lambda>e. True),
      firstVertex = (\<lambda>e. e),
      secondVertex = (\<lambda>e. if e = 0 then 1 else if e = 1 then 2 else 0),
      next = (\<lambda>h. if h = 0 then 1 else if h = 1 then 2 else if h = 2 then 0
                    else if h = 5 then 4 else if h = 4 then 3 else 5),
      twin = (\<lambda>h. if h < 3 then h + 3 else h - 3),
      face = (\<lambda>h. if h < 3 then 0 else 1),
      edge = (\<lambda>h. if h < 3 then h else h - 3),
      vertex = (\<lambda>h. if h = 0 then 0 else if h = 1 then 1 else if h = 2 then 2
                      else if h = 3 then 1 else if h = 4 then 2 else 0),
      tailVertex = (\<lambda>h. if h = 0 then 0 else if h = 1 then 1 else if h = 2 then 2
                      else if h = 3 then 1 else if h = 4 then 2 else 0),
      tipVertex = (\<lambda>h. if h = 0 then 1 else if h = 1 then 2 else if h = 2 then 0
                      else if h = 3 then 0 else if h = 4 then 1 else 2),
      corner = (\<lambda>h. h)\<rparr>"

text \<open>
Two triangles, faces 0 and 1, glued along the edge of the halfedges 0 and 3; the boundary loop is 2.
\<close>

definition two_triangles :: SurfaceMesh where
  "two_triangles =
     \<lparr>vertices = [0, 1, 2, 3], edges = [0, 1, 2, 3, 4], faces = [0, 1],
      adjacentHalfedges = (\<lambda>f. if f = 0 then [0, 1, 2] else if f = 1 then [3, 4, 5] else [9, 8, 7, 6]),
      face_halfedge = (\<lambda>f. if f = 0 then 0 else if f = 1 then 3 else 9),
      edge_halfedge = (\<lambda>e. if e = 0 then 0 else if e = 1 then 1 else if e = 2 then 2
                         else if e = 3 then 4 else 5),
      isBoundary = (\<lambda>e. e \<noteq> 0),
      firstVertex = (\<lambda>e. if e = 0 then 0 else if e = 1 then 1 else if e = 2 then 2
                         else if e = 3 then 0 else 3),
      secondVertex = (\<lambda>e. if e = 0 then 1 else if e = 1 then 2 else if e = 2 then 0
                         else if e = 3 then 3 else 1),
      next = (\<lambda>h. if h = 0 then 1 else if h = 1 then 2 else if h = 2 then 0
                    else if h = 3 then 4 else if h = 4 then 5 else if h = 5 then 3
                    else if h = 6 then 9 else if h = 9 then 8 else if h = 8 then 7 else 6),
      twin = (\<lambda>h. if h = 0 then 3 else if h = 3 then 0
                    else if h = 1 then 6 else if h = 6 then 1
                    else if h = 2 then 7 else if h = 7 then 2
                    else if h = 4 then 8 else if h = 8 then 4
                    else if h = 5 then 9 else 5),
      face = (\<lambda>h. if h < 3 then 0 else if h < 6 then 1 else 2),
      edge = (\<lambda>h. if h = 0 \<or> h = 3 then 0 else if h = 1 \<or> h = 6 then 1
                    else if h = 2 \<or> h = 7 then 2 else if h = 4 \<or> h = 8 then 3 else 4),
      vertex = (\<lambda>h. if h = 0 then 0 else if h = 1 then 1 else if h = 2 then 2
                      else if h = 3 then 1 else if h = 4 then 0 else if h = 5 then 3
                      else if h = 6 then 2 else if h = 7 then 0 else if h = 8 then 3 else 1),
      tailVertex = (\<lambda>h. if h = 0 then 0 else if h = 1 then 1 else if h = 2 then 2
                      else if h = 3 then 1 else if h = 4 then 0 else if h = 5 then 3
                      else if h = 6 then 2 else if h = 7 then 0 else if h = 8 then 3 else 1),
      tipVertex = (\<lambda>h. if h = 0 then 1 else if h = 1 then 2 else if h = 2 then 0
                      else if h = 3 then 0 else if h = 4 then 3 else if h = 5 then 1
                      else if h = 6 then 1 else if h = 7 then 2 else if h = 8 then 0 else 3),
      corner = (\<lambda>h. h)\<rparr>"

text \<open>
  A fan of three triangles, faces 0, 1, 2, around the vertex 0. Face \<open>k\<close> has the
  halfedges \<open>3k\<close> (from the centre to the rim), \<open>3k + 1\<close> (along the rim, its twin
  \<open>9 + k\<close> on the boundary loop 3) and \<open>3k + 2\<close> (back to the centre).
\<close>

definition fan :: SurfaceMesh where
  "fan =
     \<lparr>vertices = [0, 1, 2, 3], edges = [0, 1, 2, 3, 4, 5], faces = [0, 1, 2],
      adjacentHalfedges = (\<lambda>f. if f < 3 then [3 * f, 3 * f + 1, 3 * f + 2] else [11, 10, 9]),
      face_halfedge = (\<lambda>f. if f < 3 then 3 * f else 11),
      edge_halfedge = (\<lambda>e. if e < 3 then 3 * e else 3 * (e - 3) + 1),
      isBoundary = (\<lambda>e. 3 \<le> e),
      firstVertex = (\<lambda>e. if e < 3 then 0 else e - 2),
      secondVertex = (\<lambda>e. if e < 3 then e + 1 else if e = 5 then 1 else e - 1),
      next = (\<lambda>h. if h < 9 then (if h mod 3 = 2 then h - 2 else h + 1)
                    else if h = 9 then 11 else h - 1),
      twin = (\<lambda>h. if h = 0 then 8 else if h = 8 then 0
                    else if h = 3 then 2 else if h = 2 then 3
                    else if h = 6 then 5 else if h = 5 then 6
                    else if h = 1 then 9 else if h = 9 then 1
                    else if h = 4 then 10 else if h = 10 then 4
                    else if h = 7 then 11 else 7),
      face = (\<lambda>h. if h < 9 then h div 3 else 3),
      edge = (\<lambda>h. if h = 0 \<or> h = 8 then 0 else if h = 3 \<or> h = 2 then 1
                    else if h = 6 \<or> h = 5 then 2 else if h = 1 \<or> h = 9 then 3
                    else if h = 4 \<or> h = 10 then 4 else 5),
      vertex = (\<lambda>h. if h = 0 \<or> h = 3 \<or> h = 6 then 0 else if h = 1 \<or> h = 8 \<or> h = 11 then 1
                      else if h = 4 \<or> h = 2 \<or> h = 9 then 2 else 3),
      tailVertex = (\<lambda>h. if h = 0 \<or> h = 3 \<or> h = 6 then 0 else if h = 1 \<or> h = 8 \<or> h = 11 then 1
                      else if h = 4 \<or> h = 2 \<or> h = 9 then 2 else 3),
      tipVertex = (\<lambda>h. if h = 2 \<or> h = 5 \<or> h = 8 then 0 else if h = 0 \<or> h = 7 \<or> h = 9 then 1
                      else if h = 3 \<or> h = 1 \<or> h = 10 then 2 else 3),
      corner = (\<lambda>h. h)\<rparr>"

definition flat_geometry :: "SurfaceMesh \<Rightarrow> Geometry" where
  "flat_geometry m =
     \<lparr>mesh = m, edgeLengths = (\<lambda>e. 1), vertexIndices = (\<lambda>v. v),
      halfedgeVectorsInVertex = (\<lambda>h. 1), transportVectorsAlongHalfedge = (\<lambda>h. 1),
      halfedgeCotanWeights = (\<lambda>h. 1),
      vertexPositions = (\<lambda>v. if v = 0 then (0, 0, 0) else if v = 1 then (1, 0, 0)
                            else if v = 2 then (0, 1, 0) else (0, 0, 1))\<rparr>"

definition quarter_turn_geometry :: Geometry where
  "quarter_turn_geometry =
     \<lparr>mesh = single_triangle, edgeLengths = (\<lambda>e. 1), vertexIndices = (\<lambda>v. v),
      halfedgeVectorsInVertex = (\<lambda>h. 1), transportVectorsAlongHalfedge = (\<lambda>h. \<i>),
      halfedgeCotanWeights = (\<lambda>h. 1),
      vertexPositions = (\<lambda>v. (0, 0, 0))\<rparr>"

definition corner_values :: "real list \<Rightarrow> Corner \<Rightarrow> real" where
  "corner_values xs c = (if c < length xs then xs ! c else 0)"

definition no_singularities :: "Face \<Rightarrow> int" where
  "no_singularities f = 0"

definition singular_at :: "Face \<Rightarrow> Face \<Rightarrow> int" where
  "singular_at g f = (if f = g then 1 else 0)"

definition unit_field :: "Vertex \<Rightarrow> complex" where
  "unit_field v = 1"

definition unit_frequencies :: "Vertex \<Rightarrow> real" where
  "unit_frequencies v = 1"

section \<open>Properties\<close>

subsection \<open>Crossings\<close>

lemma ceiling_multiple_ge: "v \<le> 2 * pi * of_int \<lceil>v / (2 * pi)\<rceil>"
proof -
  have "v / (2 * pi) \<le> of_int \<lceil>v / (2 * pi)\<rceil>" by (rule le_of_int_ceiling)
  then have "v \<le> of_int \<lceil>v / (2 * pi)\<rceil> * (2 * pi)"
    by (subst (asm) pos_divide_le_eq) simp_all
  then show ?thesis by (simp only: mult.commute)
qed

lemma ceiling_multiple_least:
  assumes "v \<le> 2 * pi * of_int k"
  shows "2 * pi * of_int \<lceil>v / (2 * pi)\<rceil> \<le> 2 * pi * of_int k"
proof -
  have "v / (2 * pi) \<le> of_int k" using assms by (simp add: field_simps)
  then have "\<lceil>v / (2 * pi)\<rceil> \<le> k" by (simp add: ceiling_le_iff)
  then have "(of_int \<lceil>v / (2 * pi)\<rceil> :: real) \<le> of_int k" by simp
  then show ?thesis by simp
qed

lemma crosses_bary_range:
  assumes "crossesModulo2Pi val1 val2 = Some bary"
  shows "0 \<le> bary \<and> bary \<le> 1"
proof (cases "val1 < val2")
  case True
  let ?iso = "2 * pi * of_int \<lceil>val1 / (2 * pi)\<rceil>"
  from assms True have gt: "val2 > ?iso" and b: "bary = (?iso - val2) / (val1 - val2)"
    by (auto simp: crossesModulo2Pi_def Let_def split: if_splits)
  have ge: "val1 \<le> ?iso" by (rule ceiling_multiple_ge)
  show ?thesis unfolding b using True gt ge by (simp add: field_simps)
next
  case False
  let ?iso = "2 * pi * of_int \<lceil>val2 / (2 * pi)\<rceil>"
  from assms False have lt: "val2 < val1" and gt: "val1 > ?iso" and b: "bary = (?iso - val2) / (val1 - val2)"
    by (auto simp: crossesModulo2Pi_def Let_def split: if_splits)
  have ge: "val2 \<le> ?iso" by (rule ceiling_multiple_ge)
  show ?thesis unfolding b using lt gt ge by (simp add: field_simps)
qed

lemma crosses_iff_half_open:
  "(\<exists>bary. crossesModulo2Pi val1 val2 = Some bary) \<longleftrightarrow>
   (\<exists>k::int. min val1 val2 \<le> 2 * pi * of_int k \<and> 2 * pi * of_int k < max val1 val2)"
proof -
  have aux: "(\<exists>k::int. lo \<le> 2 * pi * of_int k \<and> 2 * pi * of_int k < hi)
        \<longleftrightarrow> 2 * pi * of_int \<lceil>lo / (2 * pi)\<rceil> < hi" for lo hi :: real
  proof
    assume "\<exists>k::int. lo \<le> 2 * pi * of_int k \<and> 2 * pi * of_int k < hi"
    then obtain k :: int where k: "lo \<le> 2 * pi * of_int k" "2 * pi * of_int k < hi" by blast
    from ceiling_multiple_least[OF k(1)] k(2)
    show "2 * pi * of_int \<lceil>lo / (2 * pi)\<rceil> < hi" by linarith
  next
    assume "2 * pi * of_int \<lceil>lo / (2 * pi)\<rceil> < hi"
    with ceiling_multiple_ge[of lo]
    show "\<exists>k::int. lo \<le> 2 * pi * of_int k \<and> 2 * pi * of_int k < hi" by blast
  qed
  show ?thesis
  proof (cases "val1 < val2")
    case True
    then show ?thesis using aux[of val1 val2]
      by (simp add: crossesModulo2Pi_def Let_def min_def max_def)
  next
    case False
    show ?thesis
    proof (cases "val1 = val2")
      case True
      then show ?thesis by (auto simp: crossesModulo2Pi_def)
    next
      case ne: False
      with False have "val2 < val1" by simp
      then show ?thesis using aux[of val2 val1]
        by (simp add: crossesModulo2Pi_def Let_def min_def max_def)
    qed
  qed
qed

lemma crosses_interpolates:
  assumes "crossesModulo2Pi val1 val2 = Some bary"
  shows "\<exists>k::int. bary * val1 + (1 - bary) * val2 = 2 * pi * of_int k
           \<and> min val1 val2 \<le> 2 * pi * of_int k \<and> 2 * pi * of_int k < max val1 val2"
proof (cases "val1 < val2")
  case True
  let ?k = "\<lceil>val1 / (2 * pi)\<rceil>"
  let ?iso = "2 * pi * of_int ?k"
  from assms True have gt: "val2 > ?iso" and b: "bary = (?iso - val2) / (val1 - val2)"
    by (auto simp: crossesModulo2Pi_def Let_def split: if_splits)
  have ge: "val1 \<le> ?iso" by (rule ceiling_multiple_ge)
  have "bary * (val1 - val2) = ?iso - val2" unfolding b using True by simp
  then have "bary * val1 + (1 - bary) * val2 = ?iso" by (simp add: algebra_simps)
  then show ?thesis using True gt ge by (intro exI[of _ ?k]) (simp add: min_def max_def)
next
  case False
  let ?k = "\<lceil>val2 / (2 * pi)\<rceil>"
  let ?iso = "2 * pi * of_int ?k"
  from assms False have lt: "val2 < val1" and gt: "val1 > ?iso" and b: "bary = (?iso - val2) / (val1 - val2)"
    by (auto simp: crossesModulo2Pi_def Let_def split: if_splits)
  have ge: "val2 \<le> ?iso" by (rule ceiling_multiple_ge)
  have "bary * (val1 - val2) = ?iso - val2" unfolding b using lt by simp
  then have "bary * val1 + (1 - bary) * val2 = ?iso" by (simp add: algebra_simps)
  then show ?thesis using lt gt ge by (intro exI[of _ ?k]) (simp add: min_def max_def)
qed

lemma no_multiple_in_unit: "\<not> (\<exists>k::int. 0 < 2 * pi * of_int k \<and> 2 * pi * of_int k < 1)"
proof
  assume "\<exists>k::int. 0 < 2 * pi * of_int k \<and> 2 * pi * of_int k < 1"
  then obtain k :: int where k: "0 < 2 * pi * of_int k" "2 * pi * of_int k < 1" by blast
  from k(1) have "0 < (of_int k :: real)" by (simp add: zero_less_mult_iff)
  then have "1 \<le> (of_int k :: real)" by simp
  then have "(2 * pi) * 1 \<le> (2 * pi) * of_int k" by (rule mult_left_mono) simp
  moreover have "2 \<le> pi" by (rule pi_ge_two)
  ultimately show False using k(2) by linarith
qed

text \<open>
  C2. The source's comment asks for a multiple of \<open>2\<pi>\<close> strictly between the two
  values. With the values \<open>0\<close> and \<open>1\<close> the function reports a crossing, at
  parameter \<open>1\<close>, although no multiple of \<open>2\<pi>\<close> lies strictly between them: the lower
  value is itself a multiple, and the test on that side is not strict.
\<close>

theorem crossesModulo2Pi_endpoint_on_multiple:
  "crossesModulo2Pi 0 1 = Some 1 \<and> \<not> (\<exists>k::int. 0 < 2 * pi * of_int k \<and> 2 * pi * of_int k < 1)"
  using no_multiple_in_unit by (simp add: crossesModulo2Pi_def)

lemma pi_gt_31: "31 / 10 < pi"
proof -
  have c: "cos (pi / 6) = 1 - 2 * (sin (pi / 12))\<^sup>2"
    using cos_double_sin[of "pi / 12"] by simp
  have s3: "sqrt 3 < 1733 / 1000"
  proof -
    have "sqrt 3 < sqrt ((1733 / 1000)\<^sup>2)"
      by (subst real_sqrt_less_iff) (simp add: power2_eq_square)
    then show ?thesis by simp
  qed
  have "sqrt 3 / 2 = 1 - 2 * (sin (pi / 12))\<^sup>2" using c cos_30 by simp
  then have "(sin (pi / 12))\<^sup>2 = (1 - sqrt 3 / 2) / 2" by (simp add: field_simps)
  then have sq: "(31 / 120)\<^sup>2 < (sin (pi / 12))\<^sup>2" using s3 by (simp add: power2_eq_square)
  have pos: "0 < sin (pi / 12)" by (rule sin_gt_zero) (use pi_gt_zero in auto)
  have "31 / 120 < sin (pi / 12)"
    by (rule power2_less_imp_less[OF sq]) (use pos in simp)
  moreover have "sin (pi / 12) \<le> pi / 12" by (rule sin_x_le_x) simp
  ultimately show ?thesis by simp
qed

lemma ceiling_small_pos:
  assumes "0 < v" "v \<le> 6"
  shows "\<lceil>v / (2 * pi)\<rceil> = 1"
proof -
  have "3 < pi" using pi_gt_31 by simp
  then have "v \<le> 2 * pi" using assms by simp
  then have "v / (2 * pi) \<le> 1" by (simp add: field_simps)
  moreover have "0 < v / (2 * pi)" using assms by simp
  ultimately show ?thesis by (simp add: ceiling_eq_iff)
qed

lemma ceiling_small_neg:
  assumes "- 6 < v" "v \<le> 0"
  shows "\<lceil>v / (2 * pi)\<rceil> = 0"
proof -
  have "3 < pi" using pi_gt_31 by simp
  then have "- (2 * pi) < v" using assms by simp
  then have "- 1 < v / (2 * pi)" by (simp add: field_simps)
  moreover have "v / (2 * pi) \<le> 0" using assms by (simp add: field_simps)
  ultimately show ?thesis by (simp add: ceiling_eq_iff)
qed

lemma crosses_same: "crossesModulo2Pi v v = None"
  by (simp add: crossesModulo2Pi_def)

lemma crosses_m1_1: "crossesModulo2Pi (- 1) 1 = Some (1 / 2)"
  using ceiling_small_neg[of "- 1"] by (simp add: crossesModulo2Pi_def)

lemma crosses_1_m1: "crossesModulo2Pi 1 (- 1) = Some (1 / 2)"
  using ceiling_small_neg[of "- 1"] by (simp add: crossesModulo2Pi_def)

lemma crosses_1_10: "crossesModulo2Pi 1 10 = Some ((2 * pi - 10) / (1 - 10))"
  using ceiling_small_pos[of 1] pi_less_4 by (simp add: crossesModulo2Pi_def)

lemma crosses_10_m1: "crossesModulo2Pi 10 (- 1) = Some (1 / 11)"
  using ceiling_small_neg[of "- 1"] by (simp add: crossesModulo2Pi_def)

lemma crosses_01_62: "crossesModulo2Pi (1 / 10) (31 / 5) = None"
  using ceiling_small_pos[of "1 / 10"] pi_gt_31 by (simp add: crossesModulo2Pi_def)

lemma crosses_62_01: "crossesModulo2Pi (31 / 5) (1 / 10) = None"
  using ceiling_small_pos[of "1 / 10"] pi_gt_31 by (simp add: crossesModulo2Pi_def)

lemma crosses_m1_mh: "crossesModulo2Pi (- 1) (- (1 / 2)) = None"
  using ceiling_small_neg[of "- 1"] by (simp add: crossesModulo2Pi_def)

lemma crosses_mh_m1: "crossesModulo2Pi (- (1 / 2)) (- 1) = None"
  using ceiling_small_neg[of "- 1"] by (simp add: crossesModulo2Pi_def)

lemma crosses_mh_1: "crossesModulo2Pi (- (1 / 2)) 1 = Some (2 / 3)"
  using ceiling_small_neg[of "- (1 / 2)"] by (simp add: crossesModulo2Pi_def)

lemma crosses_m1_10: "crossesModulo2Pi (- 1) 10 = Some (10 / 11)"
  using ceiling_small_neg[of "- 1"] by (simp add: crossesModulo2Pi_def)

lemma crosses_10_mh: "crossesModulo2Pi 10 (- (1 / 2)) = Some (1 / 21)"
  using ceiling_small_neg[of "- (1 / 2)"] by (simp add: crossesModulo2Pi_def)

subsection \<open>Evaluation of the example inputs\<close>

lemma single_triangle_sel:
  "faces single_triangle = [0]"
  "adjacentHalfedges single_triangle f = (if f = 0 then [0, 1, 2] else [5, 4, 3])"
  "next single_triangle h = (if h = 0 then 1 else if h = 1 then 2 else if h = 2 then 0
                    else if h = 5 then 4 else if h = 4 then 3 else 5)"
  "twin single_triangle h = (if h < 3 then h + 3 else h - 3)"
  "face single_triangle h = (if h < 3 then 0 else 1)"
  "corner single_triangle h = h"
  by (simp_all add: single_triangle_def)

lemma two_triangles_sel:
  "faces two_triangles = [0, 1]"
  "adjacentHalfedges two_triangles f = (if f = 0 then [0, 1, 2] else if f = 1 then [3, 4, 5] else [9, 8, 7, 6])"
  "next two_triangles h = (if h = 0 then 1 else if h = 1 then 2 else if h = 2 then 0
                    else if h = 3 then 4 else if h = 4 then 5 else if h = 5 then 3
                    else if h = 6 then 9 else if h = 9 then 8 else if h = 8 then 7 else 6)"
  "twin two_triangles h = (if h = 0 then 3 else if h = 3 then 0
                    else if h = 1 then 6 else if h = 6 then 1
                    else if h = 2 then 7 else if h = 7 then 2
                    else if h = 4 then 8 else if h = 8 then 4
                    else if h = 5 then 9 else 5)"
  "face two_triangles h = (if h < 3 then 0 else if h < 6 then 1 else 2)"
  "corner two_triangles h = h"
  by (simp_all add: two_triangles_def)

lemma fan_sel:
  "faces fan = [0, 1, 2]"
  "adjacentHalfedges fan f = (if f < 3 then [3 * f, 3 * f + 1, 3 * f + 2] else [11, 10, 9])"
  "next fan h = (if h < 9 then (if h mod 3 = 2 then h - 2 else h + 1)
                    else if h = 9 then 11 else h - 1)"
  "twin fan h = (if h = 0 then 8 else if h = 8 then 0
                    else if h = 3 then 2 else if h = 2 then 3
                    else if h = 6 then 5 else if h = 5 then 6
                    else if h = 1 then 9 else if h = 9 then 1
                    else if h = 4 then 10 else if h = 10 then 4
                    else if h = 7 then 11 else 7)"
  "face fan h = (if h < 9 then h div 3 else 3)"
  "corner fan h = h"
  "tailVertex fan h = (if h = 0 \<or> h = 3 \<or> h = 6 then 0 else if h = 1 \<or> h = 8 \<or> h = 11 then 1
                      else if h = 4 \<or> h = 2 \<or> h = 9 then 2 else 3)"
  "tipVertex fan h = (if h = 2 \<or> h = 5 \<or> h = 8 then 0 else if h = 0 \<or> h = 7 \<or> h = 9 then 1
                      else if h = 3 \<or> h = 1 \<or> h = 10 then 2 else 3)"
  by (simp_all add: fan_def)

lemma flat_geometry_sel:
  "mesh (flat_geometry m) = m"
  by (simp_all add: flat_geometry_def)

lemma flat_positions:
  "vertexPositions (flat_geometry m) v
   = (if v = 0 then (0, 0, 0) else if v = 1 then (1, 0, 0)
      else if v = 2 then (0, 1, 0) else (0, 0, 1))"
  by (simp add: flat_geometry_def)

lemmas eval_simps = extractIsolinesFromStripePattern_def flat_geometry_sel corner_values_def
  Let_def startWalk_def walk.simps walk_cond_def walk_body_def isBoundaryLoop_def crosses_same

lemmas eval2 = eval_simps no_singularities_def singular_at_def exits_def edge_crossing_def

subsection \<open>What every extracted isoline holds\<close>

lemma scanFace_crossings:
  assumes "\<forall>p \<in> set (isoPts s). is_crossing m sv p"
  shows "\<forall>p \<in> set (isoPts (scanFace m sv si fi f hes s)). is_crossing m sv p"
  using assms by (induction hes) (auto simp: Let_def is_crossing_def split: option.splits)

lemma scanFace_nonempty:
  "isoPts s \<noteq> [] \<Longrightarrow> isoPts (scanFace m sv si fi f hes s) \<noteq> []"
  by (induction hes) (auto simp: Let_def split: option.splits)

lemma walk_crossings:
  assumes "\<forall>p \<in> set (isoPts s). is_crossing m sv p"
  shows "\<forall>p \<in> set (isoPts (walk m sv si fi f s)). is_crossing m sv p"
  using assms
proof (induction m sv si fi f s rule: walk.induct)
  case (1 m sv si fi f s)
  show ?case
  proof (cases "walk_cond m si fi s")
    case True
    have "\<forall>p \<in> set (isoPts (walk_body m sv si fi f s)). is_crossing m sv p"
      unfolding walk_body_def by (rule scanFace_crossings) (use "1.prems" in simp)
    from "1.IH"[OF True this] True show ?thesis by (subst walk.simps) simp
  next
    case False
    with "1.prems" show ?thesis by (subst walk.simps) simp
  qed
qed

lemma walk_nonempty:
  "isoPts s \<noteq> [] \<Longrightarrow> isoPts (walk m sv si fi f s) \<noteq> []"
proof (induction m sv si fi f s rule: walk.induct)
  case (1 m sv si fi f s)
  show ?case
  proof (cases "walk_cond m si fi s")
    case True
    have "isoPts (walk_body m sv si fi f s) \<noteq> []"
      unfolding walk_body_def by (rule scanFace_nonempty) (use "1.prems" in simp)
    from "1.IH"[OF True this] True show ?thesis by (subst walk.simps) simp
  next
    case False
    with "1.prems" show ?thesis by (subst walk.simps) simp
  qed
qed

lemma traceFace_crossings:
  assumes "\<forall>p \<in> set (barycenters (isoF t)). is_crossing m sv p"
  shows "\<forall>p \<in> set (barycenters (isoF (traceFace m sv si fi f hs t))). is_crossing m sv p"
  using assms
proof (induction hs arbitrary: t)
  case Nil
  then show ?case by simp
next
  case (Cons h hs)
  show ?case
  proof (cases "crossesModulo2Pi (sv (corner m h)) (sv (corner m (next m h)))")
    case None
    with Cons show ?thesis by simp
  next
    case (Some bary)
    let ?s = "walk m sv si fi f (startWalk (visitedF t) (open_line (isoF t)) h bary f (face m (twin m h)))"
    let ?bs = "if length (barycenters (isoF t)) = 0 then barycenters (isoF t) @ rev (isoPts ?s)
               else barycenters (isoF t) @ isoPts ?s"
    let ?t' = "\<lparr>visitedF = visited ?s, isoF = \<lparr>barycenters = ?bs, open_line = iso_open ?s\<rparr>,
                nbOfPieces = nbOfPieces t + 1\<rparr>"
    have step: "traceFace m sv si fi f (h # hs) t = traceFace m sv si fi f hs ?t'"
      using Some by (simp add: Let_def)
    have "\<forall>p \<in> set (isoPts ?s). is_crossing m sv p"
      by (rule walk_crossings) (simp add: startWalk_def is_crossing_def Some)
    with Cons.prems have "\<forall>p \<in> set (barycenters (isoF ?t')). is_crossing m sv p" by auto
    from Cons.IH[OF this] show ?thesis unfolding step .
  qed
qed

lemma traceFace_pieces_inv:
  "pieces_inv t \<Longrightarrow> pieces_inv (traceFace m sv si fi f hs t)"
proof (induction hs arbitrary: t)
  case Nil
  then show ?case by simp
next
  case (Cons h hs)
  show ?case
  proof (cases "crossesModulo2Pi (sv (corner m h)) (sv (corner m (next m h)))")
    case None
    with Cons show ?thesis by simp
  next
    case (Some bary)
    let ?s = "walk m sv si fi f (startWalk (visitedF t) (open_line (isoF t)) h bary f (face m (twin m h)))"
    let ?bs = "if length (barycenters (isoF t)) = 0 then barycenters (isoF t) @ rev (isoPts ?s)
               else barycenters (isoF t) @ isoPts ?s"
    let ?t' = "\<lparr>visitedF = visited ?s, isoF = \<lparr>barycenters = ?bs, open_line = iso_open ?s\<rparr>,
                nbOfPieces = nbOfPieces t + 1\<rparr>"
    have step: "traceFace m sv si fi f (h # hs) t = traceFace m sv si fi f hs ?t'"
      using Some by (simp add: Let_def)
    have "isoPts ?s \<noteq> []"
      by (rule walk_nonempty) (simp add: startWalk_def)
    with Cons.prems have "pieces_inv ?t'" by (auto simp: pieces_inv_def)
    from Cons.IH[OF this] show ?thesis unfolding step .
  qed
qed

lemma facesLoop_isolines:
  assumes "facesLoop m sv si fi fs vis isolines = Inr result"
    and "\<forall>iso \<in> set isolines. barycenters iso \<noteq> [] \<and> (\<forall>p \<in> set (barycenters iso). is_crossing m sv p)"
  shows "\<forall>iso \<in> set result. barycenters iso \<noteq> [] \<and> (\<forall>p \<in> set (barycenters iso). is_crossing m sv p)"
  using assms
proof (induction fs arbitrary: vis isolines)
  case Nil
  then show ?case by simp
next
  case (Cons f fs)
  show ?case
  proof (cases "f \<in> vis \<or> si f \<noteq> 0 \<or> fi f \<noteq> 0")
    case True
    with Cons.prems(1) have "facesLoop m sv si fi fs vis isolines = Inr result" by simp
    from Cons.IH[OF this Cons.prems(2)] show ?thesis .
  next
    case False
    let ?t0 = "\<lparr>visitedF = insert f vis, isoF = \<lparr>barycenters = [], open_line = True\<rparr>, nbOfPieces = 0\<rparr>"
    let ?t = "traceFace m sv si fi f (adjacentHalfedges m f) ?t0"
    let ?isos = "if nbOfPieces ?t > 0 then isolines @ [isoF ?t] else isolines"
    have inv: "pieces_inv ?t" by (rule traceFace_pieces_inv) (simp add: pieces_inv_def)
    have cr: "\<forall>p \<in> set (barycenters (isoF ?t)). is_crossing m sv p"
      by (rule traceFace_crossings) simp
    from Cons.prems(1) False have run: "facesLoop m sv si fi fs (visitedF ?t) ?isos = Inr result"
      by (simp add: Let_def split: if_splits)
    have "\<forall>iso \<in> set ?isos. barycenters iso \<noteq> [] \<and> (\<forall>p \<in> set (barycenters iso). is_crossing m sv p)"
      using Cons.prems(2) inv cr by (auto simp: pieces_inv_def)
    from Cons.IH[OF run this] show ?thesis .
  qed
qed

lemma extractIsolines_isolines:
  assumes "extractIsolinesFromStripePattern g sv si fi = Inr result"
  shows "\<forall>iso \<in> set result. barycenters iso \<noteq> []
           \<and> (\<forall>p \<in> set (barycenters iso). is_crossing (mesh g) sv p)"
  using facesLoop_isolines[of "mesh g" sv si fi "faces (mesh g)" "{}" "[]" result] assms
  by (simp add: extractIsolinesFromStripePattern_def)

subsection \<open>The scenario of the single triangle\<close>

text \<open>
  C1 (the claim fails here). On the single triangle with the corner values 0.1, 6.2, 0.1
  and all indices zero, the test on the edge from I to J reports no crossing, since
  \<open>6.2 < 2\<pi>\<close>, and the extraction returns no isoline at all.
\<close>

theorem triangle_01_62_01_counterexample:
  "crossesModulo2Pi 0.1 6.2 = None
   \<and> extractIsolinesFromStripePattern (flat_geometry single_triangle)
       (corner_values [0.1, 6.2, 0.1]) no_singularities no_singularities = Inr []"
  by (simp add: eval2 single_triangle_sel crosses_01_62 crosses_62_01)

text \<open>
  C1, amended. For a single triangle whose three corner stripe values are 0.1, 6.2, 0.1,
  the crossing test reports no crossing on any of the three edges, and the extraction
  returns the empty list of isolines.
\<close>

theorem triangle_01_62_01_no_isoline:
  assumes "faces (mesh g) = [f]" "adjacentHalfedges (mesh g) f = [hij, hjk, hki]"
    and "next (mesh g) hij = hjk" "next (mesh g) hjk = hki" "next (mesh g) hki = hij"
    and "sv (corner (mesh g) hij) = 0.1" "sv (corner (mesh g) hjk) = 6.2"
        "sv (corner (mesh g) hki) = 0.1"
  shows "edge_crossing (mesh g) sv hij = None \<and> edge_crossing (mesh g) sv hjk = None
         \<and> edge_crossing (mesh g) sv hki = None
         \<and> extractIsolinesFromStripePattern g sv si fi = Inr []"
proof -
  have c1: "edge_crossing (mesh g) sv hij = None"
    unfolding edge_crossing_def assms by (simp add: crosses_01_62)
  have c2: "edge_crossing (mesh g) sv hjk = None"
    unfolding edge_crossing_def assms by (simp add: crosses_62_01)
  have c3: "edge_crossing (mesh g) sv hki = None"
    unfolding edge_crossing_def assms by (rule crosses_same)
  have "traceFace (mesh g) sv si fi f [hij, hjk, hki] t = t" for t
    by (simp add: c1[unfolded edge_crossing_def] c2[unfolded edge_crossing_def]
        c3[unfolded edge_crossing_def])
  then have "extractIsolinesFromStripePattern g sv si fi = Inr []"
    by (simp add: extractIsolinesFromStripePattern_def assms(1,2) Let_def)
  with c1 c2 c3 show ?thesis by simp
qed

text \<open>
The hypotheses hold for the triangle mesh above.
\<close>

theorem triangle_01_62_01_no_isoline_witness:
  "faces (mesh (flat_geometry single_triangle)) = [0]
   \<and> adjacentHalfedges (mesh (flat_geometry single_triangle)) 0 = [0, 1, 2]
   \<and> corner_values [0.1, 6.2, 0.1] (corner (mesh (flat_geometry single_triangle)) 1) = 6.2
   \<and> edge_crossing (mesh (flat_geometry single_triangle)) (corner_values [0.1, 6.2, 0.1]) 0 = None
   \<and> extractIsolinesFromStripePattern (flat_geometry single_triangle)
       (corner_values [0.1, 6.2, 0.1]) no_singularities no_singularities = Inr []"
  using triangle_01_62_01_no_isoline[of "flat_geometry single_triangle" 0 0 1 2
      "corner_values [0.1, 6.2, 0.1]" no_singularities no_singularities]
  by (simp add: flat_geometry_sel single_triangle_sel corner_values_def)

subsection \<open>Branching at a seed face\<close>

lemma traceFace_nbOfPieces:
  "nbOfPieces (traceFace m sv si fi f hs t)
   = nbOfPieces t + int (length (filter (\<lambda>h. edge_crossing m sv h \<noteq> None) hs))"
proof (induction hs arbitrary: t)
  case Nil
  then show ?case by simp
next
  case (Cons h hs)
  show ?case
  proof (cases "crossesModulo2Pi (sv (corner m h)) (sv (corner m (next m h)))")
    case None
    then show ?thesis using Cons.IH[of t] by (simp add: edge_crossing_def)
  next
    case (Some bary)
    then show ?thesis by (simp add: Let_def Cons.IH edge_crossing_def)
  qed
qed

lemma seed_nbOfPieces:
  "nbOfPieces (traceFace m sv si fi f (adjacentHalfedges m f)
      \<lparr>visitedF = vis, isoF = iso0, nbOfPieces = 0\<rparr>) = int (exits m sv f)"
  by (simp add: traceFace_nbOfPieces exits_def)

lemma facesLoop_seed_branches:
  assumes "f \<notin> vis" "si f = 0" "fi f = 0" "2 < exits m sv f"
  shows "facesLoop m sv si fi (f # fs) vis isolines = Inl (runtime_error branch_message)"
  using assms by (simp add: Let_def seed_nbOfPieces)

lemma facesLoop_Inl_iff:
  "facesLoop m sv si fi fs vis isolines = Inl e \<longleftrightarrow>
     e = runtime_error branch_message
     \<and> (\<exists>f \<in> set (seedFaces m sv si fi fs vis). 2 < exits m sv f)"
proof (induction fs arbitrary: vis isolines)
  case Nil
  then show ?case by simp
next
  case (Cons f fs)
  show ?case
  proof (cases "f \<in> vis \<or> si f \<noteq> 0 \<or> fi f \<noteq> 0")
    case True
    then show ?thesis using Cons.IH[of vis isolines] by simp
  next
    case False
    let ?t = "traceFace m sv si fi f (adjacentHalfedges m f)
                \<lparr>visitedF = insert f vis, isoF = \<lparr>barycenters = [], open_line = True\<rparr>, nbOfPieces = 0\<rparr>"
    have seeds: "seedFaces m sv si fi (f # fs) vis = f # seedFaces m sv si fi fs (visitedF ?t)"
      using False by simp
    show ?thesis
    proof (cases "2 < exits m sv f")
      case True
      then have "facesLoop m sv si fi (f # fs) vis isolines = Inl (runtime_error branch_message)"
        using False by (intro facesLoop_seed_branches) simp_all
      with True show ?thesis unfolding seeds by auto
    next
      case few: False
      have "facesLoop m sv si fi (f # fs) vis isolines =
            facesLoop m sv si fi fs (visitedF ?t)
              (if nbOfPieces ?t > 0 then isolines @ [isoF ?t] else isolines)"
        using few False by (simp add: Let_def seed_nbOfPieces del: traceFace.simps)
      then show ?thesis unfolding seeds using few Cons.IH by simp
    qed
  qed
qed

lemma seedFaces_regular:
  "f \<in> set (seedFaces m sv si fi fs vis) \<Longrightarrow> f \<in> set fs \<and> si f = 0 \<and> fi f = 0"
  by (induction fs arbitrary: vis) (auto split: if_splits)

text \<open>
  C3 (the claim fails here). The diagnostic does not identify the face. On the two
  glued triangles, once face 0 and once face 1 is the only seed face, with three exits;
  both runs end in the same error with the same message.
\<close>

theorem branch_message_same_for_both_faces:
  "extractIsolinesFromStripePattern (flat_geometry two_triangles)
     (corner_values [- 1, 1, 10, 0, 0, 0]) (singular_at 1) no_singularities
   = Inl (runtime_error ''Isolines should only branch out on singularities'')
   \<and> exits two_triangles (corner_values [- 1, 1, 10, 0, 0, 0]) 0 = 3
   \<and> extractIsolinesFromStripePattern (flat_geometry two_triangles)
     (corner_values [0, 0, 0, - 1, 1, 10]) (singular_at 0) no_singularities
   = Inl (runtime_error ''Isolines should only branch out on singularities'')
   \<and> exits two_triangles (corner_values [0, 0, 0, - 1, 1, 10]) 1 = 3"
  by (simp add: eval2 two_triangles_sel crosses_m1_1 crosses_1_10 crosses_10_m1 branch_message_def
      del: not_None_eq)

text \<open>
  C3, amended. Whenever the loop over the faces comes to a seed face (not visited, both
  indices zero) with more than two crossing edges, the extraction ends in a runtime
  error with the fixed message \<^term>\<open>branch_message\<close>, which does not name the face.
  The extraction ends in an error exactly when some seed face has more than two
  crossing edges, and then in this one; with at most two on every seed face, it
  returns a list of isolines.
\<close>

theorem branching_raises_fixed_message:
  "(f \<notin> vis \<and> si f = 0 \<and> fi f = 0 \<and> 2 < exits (mesh g) sv f \<longrightarrow>
      facesLoop (mesh g) sv si fi (f # fs) vis isolines = Inl (runtime_error branch_message))
   \<and> (extractIsolinesFromStripePattern g sv si fi = Inl e \<longleftrightarrow>
        e = runtime_error branch_message
        \<and> (\<exists>f' \<in> set (seedFaces (mesh g) sv si fi (faces (mesh g)) {}). 2 < exits (mesh g) sv f'))
   \<and> ((\<forall>f' \<in> set (seedFaces (mesh g) sv si fi (faces (mesh g)) {}). exits (mesh g) sv f' \<le> 2) \<longrightarrow>
        (\<exists>result. extractIsolinesFromStripePattern g sv si fi = Inr result))"
proof (intro conjI impI)
  assume "f \<notin> vis \<and> si f = 0 \<and> fi f = 0 \<and> 2 < exits (mesh g) sv f"
  then show "facesLoop (mesh g) sv si fi (f # fs) vis isolines = Inl (runtime_error branch_message)"
    using facesLoop_seed_branches by blast
next
  show "extractIsolinesFromStripePattern g sv si fi = Inl e \<longleftrightarrow>
        e = runtime_error branch_message
        \<and> (\<exists>f' \<in> set (seedFaces (mesh g) sv si fi (faces (mesh g)) {}). 2 < exits (mesh g) sv f')"
    unfolding extractIsolinesFromStripePattern_def by (rule facesLoop_Inl_iff)
next
  assume few: "\<forall>f' \<in> set (seedFaces (mesh g) sv si fi (faces (mesh g)) {}). exits (mesh g) sv f' \<le> 2"
  show "\<exists>result. extractIsolinesFromStripePattern g sv si fi = Inr result"
  proof (cases "extractIsolinesFromStripePattern g sv si fi")
    case (Inl e)
    then have "facesLoop (mesh g) sv si fi (faces (mesh g)) {} [] = Inl e"
      by (simp add: extractIsolinesFromStripePattern_def)
    then have "\<exists>f' \<in> set (seedFaces (mesh g) sv si fi (faces (mesh g)) {}). 2 < exits (mesh g) sv f'"
      by (simp add: facesLoop_Inl_iff)
    with few show ?thesis by fastforce
  next
    case (Inr r)
    then show ?thesis by blast
  qed
qed

text \<open>
Both cases occur. On the two glued triangles the only seed face has three crossing
edges. On the fan the seed faces are 0 and 2, with two crossing edges each; face 1 has
three, but the trace from face 0 has visited it before the loop comes to it, and the
extraction returns.
\<close>

theorem branching_raises_fixed_message_witness:
  "(0 \<notin> ({} :: Face set) \<and> singular_at 1 0 = 0 \<and> no_singularities 0 = 0
      \<and> 2 < exits (mesh (flat_geometry two_triangles)) (corner_values [- 1, 1, 10, 0, 0, 0]) 0)
   \<and> facesLoop (mesh (flat_geometry two_triangles)) (corner_values [- 1, 1, 10, 0, 0, 0])
        (singular_at 1) no_singularities [0, 1] {} []
      = Inl (runtime_error branch_message)
   \<and> seedFaces (mesh (flat_geometry two_triangles)) (corner_values [- 1, 1, 10, 0, 0, 0])
        (singular_at 1) no_singularities (faces (mesh (flat_geometry two_triangles))) {} = [0]
   \<and> extractIsolinesFromStripePattern (flat_geometry two_triangles)
        (corner_values [- 1, 1, 10, 0, 0, 0]) (singular_at 1) no_singularities
      = Inl (runtime_error branch_message)
   \<and> seedFaces (mesh (flat_geometry fan))
        (corner_values [- 1, - (1 / 2), 1, - 1, 1, 10, - 1, 10, - (1 / 2)])
        no_singularities no_singularities (faces (mesh (flat_geometry fan))) {} = [0, 2]
   \<and> exits (mesh (flat_geometry fan))
        (corner_values [- 1, - (1 / 2), 1, - 1, 1, 10, - 1, 10, - (1 / 2)]) 0 = 2
   \<and> exits (mesh (flat_geometry fan))
        (corner_values [- 1, - (1 / 2), 1, - 1, 1, 10, - 1, 10, - (1 / 2)]) 1 = 3
   \<and> exits (mesh (flat_geometry fan))
        (corner_values [- 1, - (1 / 2), 1, - 1, 1, 10, - 1, 10, - (1 / 2)]) 2 = 2
   \<and> (\<exists>result. extractIsolinesFromStripePattern (flat_geometry fan)
         (corner_values [- 1, - (1 / 2), 1, - 1, 1, 10, - 1, 10, - (1 / 2)])
         no_singularities no_singularities = Inr result)"
proof -
  let ?A = "corner_values [- 1, 1, 10, 0, 0, 0]"
  let ?F = "corner_values [- 1, - (1 / 2), 1, - 1, 1, 10, - 1, 10, - (1 / 2)]"
  have h1: "0 \<notin> ({} :: Face set) \<and> singular_at 1 0 = 0 \<and> no_singularities 0 = 0
      \<and> 2 < exits (mesh (flat_geometry two_triangles)) ?A 0"
    by (simp add: eval2 two_triangles_sel crosses_m1_1 crosses_1_10 crosses_10_m1 del: not_None_eq)
  have sA: "seedFaces (mesh (flat_geometry two_triangles)) ?A (singular_at 1) no_singularities
        (faces (mesh (flat_geometry two_triangles))) {} = [0]"
    by (simp add: eval2 two_triangles_sel)
  have sF: "seedFaces (mesh (flat_geometry fan)) ?F no_singularities no_singularities
        (faces (mesh (flat_geometry fan))) {} = [0, 2]"
    by (simp add: eval2 fan_sel crosses_m1_1 crosses_1_m1 crosses_1_10 crosses_10_m1
        crosses_m1_mh crosses_mh_m1 crosses_mh_1 crosses_m1_10 crosses_10_mh)
  have eF: "exits (mesh (flat_geometry fan)) ?F 0 = 2 \<and> exits (mesh (flat_geometry fan)) ?F 1 = 3
      \<and> exits (mesh (flat_geometry fan)) ?F 2 = 2"
    by (simp add: eval2 fan_sel crosses_m1_1 crosses_1_m1 crosses_1_10 crosses_10_m1
        crosses_m1_mh crosses_mh_m1 crosses_mh_1 crosses_m1_10 crosses_10_mh del: not_None_eq)
  note a = branching_raises_fixed_message[of 0 "{}" "singular_at 1" no_singularities
      "flat_geometry two_triangles" ?A "[1]" "[]" "runtime_error branch_message"]
  note b = branching_raises_fixed_message[of 0 "{}" no_singularities no_singularities
      "flat_geometry fan" ?F "[1]" "[]" "runtime_error branch_message"]
  from a h1 have c1: "facesLoop (mesh (flat_geometry two_triangles)) ?A
        (singular_at 1) no_singularities [0, 1] {} [] = Inl (runtime_error branch_message)"
    by blast
  from a h1 have c2: "extractIsolinesFromStripePattern (flat_geometry two_triangles) ?A
        (singular_at 1) no_singularities = Inl (runtime_error branch_message)"
    unfolding sA by simp
  from b have c3: "\<exists>result. extractIsolinesFromStripePattern (flat_geometry fan) ?F
         no_singularities no_singularities = Inr result"
    unfolding sF using eF by simp
  from h1 c1 sA c2 sF eF c3 show ?thesis by blast
qed

subsection \<open>Where an isoline ends\<close>










text \<open>
  On a triangle the number of crossing edges is never one: a multiple of \<open>2\<pi>\<close> that
  separates two of the three corner values separates one of them from the third.
\<close>

lemma crosses_iff_separates:
  "crossesModulo2Pi a b \<noteq> None \<longleftrightarrow>
   (\<exists>k::int. (a \<le> 2 * pi * of_int k) \<noteq> (b \<le> 2 * pi * of_int k))"
proof -
  have "crossesModulo2Pi a b \<noteq> None \<longleftrightarrow> (\<exists>bary. crossesModulo2Pi a b = Some bary)"
    by auto
  also have "\<dots> \<longleftrightarrow> (\<exists>k::int. min a b \<le> 2 * pi * of_int k \<and> 2 * pi * of_int k < max a b)"
    by (rule crosses_iff_half_open)
  also have "\<dots> \<longleftrightarrow> (\<exists>k::int. (a \<le> 2 * pi * of_int k) \<noteq> (b \<le> 2 * pi * of_int k))"
    by (intro ex_cong1) (auto simp: min_def max_def)
  finally show ?thesis .
qed

lemma crossing_continues_around_triangle:
  assumes "crossesModulo2Pi a b \<noteq> None"
  shows "crossesModulo2Pi b c \<noteq> None \<or> crossesModulo2Pi c a \<noteq> None"
proof -
  from assms obtain k :: int where "(a \<le> 2 * pi * of_int k) \<noteq> (b \<le> 2 * pi * of_int k)"
    unfolding crosses_iff_separates by blast
  then have "(b \<le> 2 * pi * of_int k) \<noteq> (c \<le> 2 * pi * of_int k)
             \<or> (c \<le> 2 * pi * of_int k) \<noteq> (a \<le> 2 * pi * of_int k)"
    by blast
  then show ?thesis unfolding crosses_iff_separates by blast
qed

lemma triangle_exits_not_one:
  assumes "adjacentHalfedges m f = [h, next m h, next m (next m h)]"
    and "next m (next m (next m h)) = h"
  shows "exits m sv f \<noteq> 1"
proof -
  let ?a = "sv (corner m h)"
  let ?b = "sv (corner m (next m h))"
  let ?c = "sv (corner m (next m (next m h)))"
  note ab = crossing_continues_around_triangle[of ?a ?b ?c]
  note bc = crossing_continues_around_triangle[of ?b ?c ?a]
  note ca = crossing_continues_around_triangle[of ?c ?a ?b]
  show ?thesis
    unfolding exits_def assms(1) edge_crossing_def
    using ab bc ca by (auto simp: assms(2) simp del: not_None_eq)
qed





















subsection \<open>Polylines\<close>

lemma barycentersLoop_closed:
  "barycentersLoop g start n ps (i, pts, es) =
     (i + int (length ps), pts @ map (pointOf g) ps,
      es @ map (\<lambda>k. (k, k + 1)) (filter (\<lambda>k. k < start + n - 1) [i..i + int (length ps) - 1]))"
proof (induction ps arbitrary: i pts es)
  case Nil
  then show ?case by simp
next
  case (Cons p ps)
  obtain h bary where p: "p = (h, bary)" by (cases p)
  have up: "[i..i + int (length (p # ps)) - 1] = i # [i + 1..i + 1 + int (length ps) - 1]"
    by (subst upto_rec1) (simp_all add: add.commute add.left_commute)
  show ?case by (subst up) (simp add: p Cons.IH pointOf_def)
qed

lemma filter_less_upto: "filter (\<lambda>k. k < j) [i..j] = [i..j - 1]"
proof (cases "i \<le> j")
  case True
  have "filter (\<lambda>k. k < j) [i..j - 1] = [i..j - 1]" by (rule filter_True) simp
  with True show ?thesis by (simp add: upto_rec2)
next
  case False
  then show ?thesis by simp
qed

lemma isolinesLoop_closed:
  "isolinesLoop g isolines (i, pts, es) =
     (i + (\<Sum>iso\<leftarrow>isolines. int (length (barycenters iso))),
      pts @ concat (map (\<lambda>iso. map (pointOf g) (barycenters iso)) isolines),
      es @ polyline_edges i isolines)"
proof (induction isolines arbitrary: i pts es)
  case Nil
  then show ?case by simp
next
  case (Cons iso isolines)
  let ?n = "int (length (barycenters iso))"
  have flt: "filter (\<lambda>k. k < i + ?n - 1) [i..i + ?n - 1] = [i..i + ?n - 2]"
    using filter_less_upto[of "i + ?n - 1" i] by (simp add: algebra_simps)
  show ?case
    by (simp add: barycentersLoop_closed flt Cons.IH Let_def add.assoc)
qed

lemma polyline_edges_length:
  assumes "\<forall>iso \<in> set isolines. barycenters iso \<noteq> []"
  shows "length (polyline_edges off isolines)
         = (\<Sum>iso\<leftarrow>isolines. if open_line iso then length (barycenters iso) - 1
                             else length (barycenters iso))"
  using assms
proof (induction isolines arbitrary: off)
  case Nil
  then show ?case by simp
next
  case (Cons iso isolines)
  then have ne: "barycenters iso \<noteq> []" by simp
  then have "0 < length (barycenters iso)" by simp
  then have len: "length [off..off + int (length (barycenters iso)) - 2] = length (barycenters iso) - 1"
    by (simp add: nat_diff_distrib')
  from Cons show ?case using ne by (simp add: Let_def len del: length_upto)
qed

lemma polyline_edges_append:
  "polyline_edges off (xs @ ys)
   = polyline_edges off xs @ polyline_edges (off + (\<Sum>iso\<leftarrow>xs. int (length (barycenters iso)))) ys"
  by (induction xs arbitrary: off) (simp_all add: Let_def add.assoc)

lemma isolines_points_length:
  "length (concat (map (\<lambda>iso. map (pointOf g) (barycenters iso)) isolines))
   = (\<Sum>iso\<leftarrow>isolines. length (barycenters iso))"
  by (induction isolines) simp_all

lemma fan_polylines:
  "extractPolylinesFromStripePattern (flat_geometry fan)
     (corner_values [1, - 1, - 1, 1, - 1, - 1, 1, - 1, - 1]) no_singularities no_singularities
   = Inr ([(0, 0, 1 / 2), (1 / 2, 0, 0), (0, 1 / 2, 0)], [(0, 1), (1, 2), (2, 0)])"
  by (simp add: extractPolylinesFromStripePattern_def eval2 fan_sel crosses_m1_1 crosses_1_m1
      flat_positions add3_def scale3_def)

text \<open>
  C6. For every list of isolines that the isoline extraction returns, the polyline
  extraction returns as many points as there are barycenters in all isolines, and as
  many edges as the sum of (barycenters - 1) for each open isoline and (barycenters)
  for each closed one; the edges are those of \<^const>\<open>polyline_edges\<close>, and each closed
  isoline has the edge from its last point back to its first.
\<close>

theorem polyline_counts:
  assumes "extractIsolinesFromStripePattern g values si fi = Inr isolines"
  shows "\<exists>points polyEdges.
           extractPolylinesFromStripePattern g values si fi = Inr (points, polyEdges)
           \<and> length points = (\<Sum>iso\<leftarrow>isolines. length (barycenters iso))
           \<and> length polyEdges = (\<Sum>iso\<leftarrow>isolines. if open_line iso then length (barycenters iso) - 1
                                                   else length (barycenters iso))
           \<and> polyEdges = polyline_edges 0 isolines
           \<and> (\<forall>pre iso post. isolines = pre @ iso # post \<and> \<not> open_line iso \<longrightarrow>
                 (let start = (\<Sum>j\<leftarrow>pre. int (length (barycenters j)))
                  in (start + int (length (barycenters iso)) - 1, start) \<in> set polyEdges))"
proof -
  let ?points = "concat (map (\<lambda>iso. map (pointOf g) (barycenters iso)) isolines)"
  let ?edges = "polyline_edges 0 isolines"
  have run: "extractPolylinesFromStripePattern g values si fi = Inr (?points, ?edges)"
    by (simp add: extractPolylinesFromStripePattern_def assms isolinesLoop_closed)
  have ne: "\<forall>iso \<in> set isolines. barycenters iso \<noteq> []"
    using extractIsolines_isolines[OF assms] by blast
  have closing: "(start + int (length (barycenters iso)) - 1, start) \<in> set ?edges"
    if "isolines = pre @ iso # post" "\<not> open_line iso"
      "start = (\<Sum>j\<leftarrow>pre. int (length (barycenters j)))" for pre iso post start
    using that by (simp add: polyline_edges_append Let_def)
  show ?thesis
    using run polyline_edges_length[OF ne, of 0] isolines_points_length[of g isolines] closing
    by (intro exI[of _ ?points] exI[of _ ?edges]) (simp add: Let_def)
qed

text \<open>
The closed isoline around the centre of the fan: three points, three edges.
\<close>

theorem polyline_counts_witness:
  "extractIsolinesFromStripePattern (flat_geometry fan)
     (corner_values [1, - 1, - 1, 1, - 1, - 1, 1, - 1, - 1]) no_singularities no_singularities
   = Inr [\<lparr>barycenters = [(6, 1 / 2), (0, 1 / 2), (2, 1 / 2)], open_line = False\<rparr>]
   \<and> (\<exists>points polyEdges.
        extractPolylinesFromStripePattern (flat_geometry fan)
          (corner_values [1, - 1, - 1, 1, - 1, - 1, 1, - 1, - 1]) no_singularities no_singularities
        = Inr (points, polyEdges)
        \<and> length points = 3 \<and> length polyEdges = 3 \<and> (2, 0) \<in> set polyEdges)"
proof -
  let ?iso = "\<lparr>barycenters = [(6, 1 / 2), (0, 1 / 2), (2, 1 / 2)], open_line = False\<rparr> :: Isoline"
  have run: "extractIsolinesFromStripePattern (flat_geometry fan)
     (corner_values [1, - 1, - 1, 1, - 1, - 1, 1, - 1, - 1]) no_singularities no_singularities
   = Inr [?iso]"
    by (simp add: eval2 fan_sel crosses_m1_1 crosses_1_m1)
  from polyline_counts[OF run] obtain points polyEdges where
    r: "extractPolylinesFromStripePattern (flat_geometry fan)
          (corner_values [1, - 1, - 1, 1, - 1, - 1, 1, - 1, - 1]) no_singularities no_singularities
        = Inr (points, polyEdges)"
    and n: "length points = 3" "length polyEdges = 3"
    and c: "\<forall>pre iso post. [?iso] = pre @ iso # post \<and> \<not> open_line iso \<longrightarrow>
                 (let start = (\<Sum>j\<leftarrow>pre. int (length (barycenters j)))
                  in (start + int (length (barycenters iso)) - 1, start) \<in> set polyEdges)"
    by auto
  from c[rule_format, of "[]" ?iso "[]"] have "(2, 0) \<in> set polyEdges" by simp
  with run r n show ?thesis by blast
qed

subsection \<open>The barycentric parameter in double precision\<close>

text \<open>
  Rounding at a given binary exponent.
\<close>

lemma binade_eq:
  assumes "2 powr of_int e \<le> \<bar>x\<bar>" "\<bar>x\<bar> < 2 powr of_int (e + 1)" "- 1022 \<le> e"
  shows "binade x = e"
proof -
  have pos: "0 < \<bar>x\<bar>" using assms(1) by (smt (verit) powr_gt_zero)
  have "\<lfloor>log 2 \<bar>x\<bar>\<rfloor> = e"
    using assms(1,2) pos by (subst floor_log_eq_powr_iff) (simp_all add: add.commute)
  with assms(3) show ?thesis by (simp add: binade_def)
qed

lemma binade_subnormal:
  assumes "x \<noteq> 0" "\<bar>x\<bar> < 2 powr of_int (- 1022)"
  shows "binade x = - 1022"
proof -
  have pos: "0 < \<bar>x\<bar>" using assms(1) by simp
  have "log 2 \<bar>x\<bar> < log 2 (2 powr of_int (- 1022))"
    using assms(2) pos by (subst log_less_cancel_iff) simp_all
  then have "log 2 \<bar>x\<bar> < of_int (- 1022)" by (simp del: of_int_minus)
  then have "\<lfloor>log 2 \<bar>x\<bar>\<rfloor> \<le> - 1022" by linarith
  then show ?thesis by (simp add: binade_def)
qed

lemma round_binary64_at:
  assumes "2 powr of_int e \<le> \<bar>x\<bar>" "\<bar>x\<bar> < 2 powr of_int (e + 1)" "- 1022 \<le> e"
    and "round_half_even (x / 2 powr of_int (e - 52)) = n"
    and "\<bar>of_int n * 2 powr of_int (e - 52)\<bar> < overflow_threshold"
  shows "round_binary64 x = Finite (of_int n * 2 powr of_int (e - 52))"
proof -
  from assms(1) have "x \<noteq> 0" by (smt (verit) powr_gt_zero)
  moreover have "quantum x = 2 powr of_int (e - 52)"
    unfolding quantum_def binade_eq[OF assms(1,2,3)] ..
  ultimately show ?thesis using assms(4,5)
    by (simp add: round_binary64_def Let_def abs_less_iff del: of_int_diff)
qed

lemma round_binary64_subnormal:
  assumes "x \<noteq> 0" "\<bar>x\<bar> < 2 powr of_int (- 1022)"
    and "round_half_even (x / 2 powr of_int (- 1074)) = n"
    and "\<bar>of_int n * 2 powr of_int (- 1074)\<bar> < overflow_threshold"
  shows "round_binary64 x = Finite (of_int n * 2 powr of_int (- 1074))"
proof -
  have "quantum x = 2 powr of_int (- 1074)"
    unfolding quantum_def binade_subnormal[OF assms(1,2)] by simp
  then show ?thesis using assms(1,3,4)
    by (simp add: round_binary64_def Let_def abs_less_iff)
qed

lemma round_binary64_zero: "round_binary64 0 = Finite 0"
  by (simp add: round_binary64_def)

lemma floor_minus_one_real: "\<lfloor>- 1 :: real\<rfloor> = - 1"
  using floor_of_int[of "- 1", where ?'a = real] by simp

text \<open>
  The steps of the crossing test at \<open>val1 = 8400657330533773 / 2 ^ 46\<close>, the double
  written \<^verbatim>\<open>119.38052083641215\<close>, a little above \<open>19 * 2 * \<pi>\<close>. The quotient
  \<^verbatim>\<open>val1 / (2 * PI)\<close> is \<open>19 + 1 / 884279719003555\<close> and rounds to 19, which is its
  own ceiling; the product \<^verbatim>\<open>2 * PI * 19\<close> lies halfway between two doubles and
  rounds to the even one, the double below \<open>val1\<close>.
\<close>

lemma two_PI: "double_mul (Finite 2) PI = Finite (884279719003555 / 2 ^ 47)"
proof -
  have "round_binary64 (2 * (884279719003555 / 2 ^ 48))
        = Finite (of_int 7074237752028440 * 2 powr of_int (2 - 52))"
    by (rule round_binary64_at)
       (simp_all add: round_half_even_def overflow_threshold_def powr_minus)
  then show ?thesis by (simp add: PI_def powr_minus)
qed

lemma quotient_19:
  "double_div (Finite (8400657330533773 / 2 ^ 46)) (Finite (884279719003555 / 2 ^ 47)) = Finite 19"
proof -
  have "round_binary64 (8400657330533773 / 2 ^ 46 / (884279719003555 / 2 ^ 47))
        = Finite (of_int 5348024557502464 * 2 powr of_int (4 - 52))"
    by (rule round_binary64_at)
       (simp_all add: round_half_even_def overflow_threshold_def powr_minus)
  then show ?thesis by (simp add: powr_minus)
qed

lemma isoval_19:
  "double_mul (Finite (884279719003555 / 2 ^ 47)) (Finite 19) = Finite (8400657330533772 / 2 ^ 46)"
proof -
  have "round_binary64 (884279719003555 / 2 ^ 47 * 19)
        = Finite (of_int 8400657330533772 * 2 powr of_int (6 - 52))"
    by (rule round_binary64_at)
       (simp_all add: round_half_even_def overflow_threshold_def powr_minus)
  then show ?thesis by (simp add: powr_minus)
qed

lemma isoval_adjacent:
  "double_mul (double_mul (Finite 2) PI)
     (double_ceil (double_div (Finite (8400657330533773 / 2 ^ 46)) (double_mul (Finite 2) PI)))
   = Finite (8400657330533772 / 2 ^ 46)"
  by (simp only: two_PI quotient_19 double_ceil.simps ceiling_numeral of_int_numeral isoval_19)

lemma input_is_double:
  "round_binary64 (8400657330533773 / 2 ^ 46) = Finite (8400657330533773 / 2 ^ 46)"
  "round_binary64 (8400657330533774 / 2 ^ 46) = Finite (8400657330533774 / 2 ^ 46)"
proof -
  have "round_binary64 (8400657330533773 / 2 ^ 46)
        = Finite (of_int 8400657330533773 * 2 powr of_int (6 - 52))"
    by (rule round_binary64_at)
       (simp_all add: round_half_even_def overflow_threshold_def powr_minus)
  then show "round_binary64 (8400657330533773 / 2 ^ 46) = Finite (8400657330533773 / 2 ^ 46)"
    by (simp add: powr_minus)
  have "round_binary64 (8400657330533774 / 2 ^ 46)
        = Finite (of_int 8400657330533774 * 2 powr of_int (6 - 52))"
    by (rule round_binary64_at)
       (simp_all add: round_half_even_def overflow_threshold_def powr_minus)
  then show "round_binary64 (8400657330533774 / 2 ^ 46) = Finite (8400657330533774 / 2 ^ 46)"
    by (simp add: powr_minus)
qed

text \<open>
  With \<open>val2\<close> the double after \<open>val1\<close>, and with \<open>val2 = val1 + 1\<close>.
\<close>

lemma num_adjacent:
  "double_sub (Finite (8400657330533772 / 2 ^ 46)) (Finite (8400657330533774 / 2 ^ 46))
   = Finite (- (1 / 2 ^ 45))"
proof -
  have "round_binary64 (8400657330533772 / 2 ^ 46 - 8400657330533774 / 2 ^ 46)
        = Finite (of_int (- 4503599627370496) * 2 powr of_int (- 45 - 52))"
    by (rule round_binary64_at)
       (simp_all add: round_half_even_def overflow_threshold_def powr_minus)
  then show ?thesis by (simp add: powr_minus)
qed

lemma den_adjacent:
  "double_sub (Finite (8400657330533773 / 2 ^ 46)) (Finite (8400657330533774 / 2 ^ 46))
   = Finite (- (1 / 2 ^ 46))"
proof -
  have "round_binary64 (8400657330533773 / 2 ^ 46 - 8400657330533774 / 2 ^ 46)
        = Finite (of_int (- 4503599627370496) * 2 powr of_int (- 46 - 52))"
    by (rule round_binary64_at)
       (simp_all add: round_half_even_def overflow_threshold_def powr_minus)
  then show ?thesis by (simp add: powr_minus)
qed

lemma bary_two:
  "double_div (Finite (- (1 / 2 ^ 45))) (Finite (- (1 / 2 ^ 46))) = Finite 2"
proof -
  have "round_binary64 (- (1 / 2 ^ 45) / (- (1 / 2 ^ 46)))
        = Finite (of_int 4503599627370496 * 2 powr of_int (1 - 52))"
    by (rule round_binary64_at)
       (simp_all add: round_half_even_def overflow_threshold_def powr_minus)
  then show ?thesis by (simp add: powr_minus)
qed

lemma crosses_double_adjacent:
  "crossesModulo2Pi_double (Finite (8400657330533773 / 2 ^ 46)) (Finite (8400657330533774 / 2 ^ 46))
   = Some (Finite 2)"
proof -
  have c1: "\<not> double_eq (Finite (8400657330533773 / 2 ^ 46)) (Finite (8400657330533774 / 2 ^ 46))"
    by simp
  have c2: "double_less (Finite (8400657330533773 / 2 ^ 46)) (Finite (8400657330533774 / 2 ^ 46))"
    by simp
  have c3: "double_less (Finite (8400657330533772 / 2 ^ 46)) (Finite (8400657330533774 / 2 ^ 46))"
    by simp
  show ?thesis
    unfolding crossesModulo2Pi_double_def Let_def isoval_adjacent
    by (simp only: c1 c2 c3 if_True if_False num_adjacent den_adjacent bary_two)
qed

lemma num_one_apart:
  "double_sub (Finite (8400657330533772 / 2 ^ 46)) (Finite (8471026074711437 / 2 ^ 46))
   = Finite (- (1 + 1 / 2 ^ 46))"
proof -
  have "round_binary64 (8400657330533772 / 2 ^ 46 - 8471026074711437 / 2 ^ 46)
        = Finite (of_int (- 4503599627370560) * 2 powr of_int (0 - 52))"
    by (rule round_binary64_at)
       (simp_all add: round_half_even_def overflow_threshold_def powr_minus)
  then show ?thesis by (simp add: powr_minus)
qed

lemma den_one_apart:
  "double_sub (Finite (8400657330533773 / 2 ^ 46)) (Finite (8471026074711437 / 2 ^ 46))
   = Finite (- 1)"
proof -
  have "round_binary64 (8400657330533773 / 2 ^ 46 - 8471026074711437 / 2 ^ 46)
        = Finite (of_int (- 4503599627370496) * 2 powr of_int (0 - 52))"
    by (rule round_binary64_at)
       (simp_all add: round_half_even_def overflow_threshold_def powr_minus)
  then show ?thesis by (simp add: powr_minus)
qed

lemma bary_above_one:
  "double_div (Finite (- (1 + 1 / 2 ^ 46))) (Finite (- 1)) = Finite (1 + 1 / 2 ^ 46)"
proof -
  have "round_binary64 (- (1 + 1 / 2 ^ 46) / (- 1))
        = Finite (of_int 4503599627370560 * 2 powr of_int (0 - 52))"
    by (rule round_binary64_at)
       (simp_all add: round_half_even_def overflow_threshold_def powr_minus)
  then show ?thesis by (simp add: powr_minus)
qed

lemma crosses_double_one_apart:
  "crossesModulo2Pi_double (Finite (8400657330533773 / 2 ^ 46)) (Finite (8471026074711437 / 2 ^ 46))
   = Some (Finite (1 + 1 / 2 ^ 46))"
proof -
  have c1: "\<not> double_eq (Finite (8400657330533773 / 2 ^ 46)) (Finite (8471026074711437 / 2 ^ 46))"
    by simp
  have c2: "double_less (Finite (8400657330533773 / 2 ^ 46)) (Finite (8471026074711437 / 2 ^ 46))"
    by simp
  have c3: "double_less (Finite (8400657330533772 / 2 ^ 46)) (Finite (8471026074711437 / 2 ^ 46))"
    by simp
  show ?thesis
    unfolding crossesModulo2Pi_double_def Let_def isoval_adjacent
    by (simp only: c1 c2 c3 if_True if_False num_one_apart den_one_apart bary_above_one)
qed

text \<open>
  At \<open>val1 = 1\<close> and \<open>val2 = 2 powr (-1074)\<close>, the smallest positive double: the quotient
  \<^verbatim>\<open>val2 / (2 * PI)\<close> rounds to zero.
\<close>

lemma quotient_underflows:
  "double_div (Finite (1 / 2 ^ 1074)) (Finite (884279719003555 / 2 ^ 47)) = Finite 0"
proof -
  have "round_binary64 (1 / 2 ^ 1074 / (884279719003555 / 2 ^ 47))
        = Finite (of_int 0 * 2 powr of_int (- 1074))"
    by (rule round_binary64_subnormal)
       (simp_all add: round_half_even_def overflow_threshold_def powr_minus floor_minus_one_real)
  then show ?thesis by simp
qed

lemma isoval_zero:
  "double_mul (double_mul (Finite 2) PI)
     (double_ceil (double_div (Finite (1 / 2 ^ 1074)) (double_mul (Finite 2) PI)))
   = Finite 0"
  by (simp only: two_PI quotient_underflows double_ceil.simps ceiling_zero of_int_0
      double_mul.simps mult_zero_right round_binary64_zero)

lemma num_smallest:
  "double_sub (Finite 0) (Finite (1 / 2 ^ 1074)) = Finite (- (1 / 2 ^ 1074))"
proof -
  have "round_binary64 (0 - 1 / 2 ^ 1074)
        = Finite (of_int (- 1) * 2 powr of_int (- 1074))"
    by (rule round_binary64_subnormal)
       (simp_all add: round_half_even_def overflow_threshold_def powr_minus floor_minus_one_real)
  then show ?thesis by (simp add: powr_minus)
qed

lemma den_absorbs:
  "double_sub (Finite 1) (Finite (1 / 2 ^ 1074)) = Finite 1"
proof -
  have "round_binary64 (1 - 1 / 2 ^ 1074)
        = Finite (of_int 9007199254740992 * 2 powr of_int (- 1 - 52))"
    by (rule round_binary64_at)
       (simp_all add: round_half_even_def overflow_threshold_def powr_minus)
  then show ?thesis by (simp add: powr_minus)
qed

lemma bary_below_zero:
  "double_div (Finite (- (1 / 2 ^ 1074))) (Finite 1) = Finite (- (1 / 2 ^ 1074))"
proof -
  have "round_binary64 (- (1 / 2 ^ 1074) / 1)
        = Finite (of_int (- 1) * 2 powr of_int (- 1074))"
    by (rule round_binary64_subnormal)
       (simp_all add: round_half_even_def overflow_threshold_def powr_minus floor_minus_one_real)
  then show ?thesis by (simp add: powr_minus)
qed

lemma crosses_double_below_zero:
  "crossesModulo2Pi_double (Finite 1) (Finite (1 / 2 ^ 1074)) = Some (Finite (- (1 / 2 ^ 1074)))"
proof -
  have c1: "\<not> double_eq (Finite 1) (Finite (1 / 2 ^ 1074))"
    by simp
  have c2: "\<not> double_less (Finite 1) (Finite (1 / 2 ^ 1074))"
    by simp
  have c3: "double_less (Finite 0) (Finite 1)"
    by simp
  show ?thesis
    unfolding crossesModulo2Pi_double_def Let_def isoval_zero
    by (simp only: c1 c2 c3 if_True if_False num_smallest den_absorbs bary_below_zero)
qed

text \<open>
  In exact arithmetic there is no crossing between these two values: the least multiple
  of \<open>2\<pi>\<close> that is not below \<open>val2\<close> is \<open>2\<pi>\<close> itself.
\<close>

lemma crosses_one_smallest: "crossesModulo2Pi 1 (1 / 2 ^ 1074) = None"
proof -
  have "\<lceil>(1 / 2 ^ 1074 :: real) / (2 * pi)\<rceil> = 1"
    by (rule ceiling_small_pos) simp_all
  moreover have "1 < 2 * pi" using pi_gt_31 by simp
  ultimately show ?thesis by (simp add: crossesModulo2Pi_def)
qed

text \<open>
  C10 (the code fails the claim here). In double precision the crossing test reports
  crossings whose barycentric parameter is outside the interval from 0 to 1. For the
  double \<^verbatim>\<open>119.38052083641215\<close> and the next double, \<^verbatim>\<open>119.38052083641216\<close>, it
  returns true with \<open>bary = 2\<close>; for \<^verbatim>\<open>119.38052083641215\<close> and
  \<^verbatim>\<open>120.38052083641215\<close>, with \<open>bary = 1 + 1 / 2 ^ 46\<close>; for 1 and the smallest
  positive double, with the negative of that double, where the test in exact arithmetic
  reports no crossing. In exact arithmetic the parameter is in the interval
  (\<open>crosses_bary_range\<close> above).
\<close>

theorem crossesModulo2Pi_double_leaves_unit_interval:
  "round_binary64 (8400657330533773 / 2 ^ 46) = Finite (8400657330533773 / 2 ^ 46)
   \<and> round_binary64 (8400657330533774 / 2 ^ 46) = Finite (8400657330533774 / 2 ^ 46)
   \<and> crossesModulo2Pi_double (Finite (8400657330533773 / 2 ^ 46))
        (Finite (8400657330533774 / 2 ^ 46))
      = Some (Finite 2)
   \<and> crossesModulo2Pi_double (Finite (8400657330533773 / 2 ^ 46))
        (Finite (8471026074711437 / 2 ^ 46))
      = Some (Finite (1 + 1 / 2 ^ 46))
   \<and> crossesModulo2Pi_double (Finite 1) (Finite (1 / 2 ^ 1074))
      = Some (Finite (- (1 / 2 ^ 1074)))
   \<and> crossesModulo2Pi 1 (1 / 2 ^ 1074) = None"
  using input_is_double crosses_double_adjacent crosses_double_one_apart
    crosses_double_below_zero crosses_one_smallest
  by blast

subsection \<open>The one-form\<close>

lemma Arg_one: "Arg 1 = 0"
  by (rule cis_Arg_unique) simp_all

lemma Arg_minus_one: "Arg (- 1) = pi"
  by (rule cis_Arg_unique) simp_all

lemma computeOmega_nonnull:
  "\<exists>omega flag. computeOmega g df fr e (Some a) = Inr (omega, a, flag)"
  by (simp only: computeOmega_def Let_def option.case) blast

lemma computeOmega_null: "computeOmega g df fr e None = Inl null_dereference"
  by (simp add: computeOmega_def Let_def)

text \<open>
  C7 (the claim fails here). With the transport a quarter turn and the same direction
  at both ends, the transported representative is perpendicular to the other one: the
  dot product is 0, not negative, and the flag is set.
\<close>

theorem perpendicular_representatives_counterexample:
  "dot2 (transportVectorsAlongHalfedge quarter_turn_geometry (edge_halfedge single_triangle 0)
           * cis (Arg (unit_field (firstVertex single_triangle 0)) / 2))
        (cis (Arg (unit_field (secondVertex single_triangle 0)) / 2)) = 0
   \<and> computeOmega quarter_turn_geometry unit_field unit_frequencies 0 (Some 0)
     = Inr (1 / 2, 0, True)"
  by (simp add: computeOmega_def quarter_turn_geometry_def unit_field_def unit_frequencies_def
      dot2_def Arg_one Arg_minus_one Let_def)

text \<open>
  C7, amended. For every edge, \<^verbatim>\<open>computeOmega\<close> returns
  \<open>(l / 2) (fI cos (phiI - thetaI) + fJ cos (phiJ - thetaJ))\<close>, with the edge length \<open>l\<close>,
  the frequencies \<open>fI\<close>, \<open>fJ\<close> at the ends, the arguments \<open>phiI\<close>, \<open>phiJ\<close> of the
  half-angle representatives (the one at J with the sign \<open>s\<close>), and the edge angles
  \<open>thetaI\<close> and \<open>thetaJ = thetaI + Arg rij\<close>; it sets the flag exactly when the dot product
  of the transported representative at I and the representative at J is not positive,
  and the sign \<open>s\<close> used for \<open>Xj\<close> is \<open>-1\<close> in that case and \<open>1\<close> otherwise.
\<close>

theorem computeOmega_value_and_sheet_flag:
  "computeOmega g directionField frequencies e (Some a) =
     (let Xi = cis (Arg (directionField (firstVertex (mesh g) e)) / 2);
          Xj = cis (Arg (directionField (secondVertex (mesh g) e)) / 2);
          rij = transportVectorsAlongHalfedge g (edge_halfedge (mesh g) e);
          crosses = (dot2 (rij * Xi) Xj \<le> 0);
          s = (if crosses then - 1 else 1);
          l = edgeLengths g e;
          fI = frequencies (firstVertex (mesh g) e);
          fJ = frequencies (secondVertex (mesh g) e);
          phiI = Arg Xi;
          phiJ = Arg (of_real s * Xj);
          thetaI = Arg (halfedgeVectorsInVertex g (edge_halfedge (mesh g) e));
          thetaJ = thetaI + Arg rij
      in Inr ((l / 2) * (fI * cos (phiI - thetaI) + fJ * cos (phiJ - thetaJ)), a, crosses))"
  by (simp add: computeOmega_def Let_def not_less)

subsection \<open>The energy matrix\<close>

lemma tsum_append: "tsum (ts @ us) r c = tsum ts r c + tsum us r c"
  by (simp add: tsum_def)

lemma edgeTriplets_symmetric:
  "tsum (edgeTriplets g bi e omega flag) r c = tsum (edgeTriplets g bi e omega flag) c r"
  by (simp add: tsum_def edgeTriplets_def Let_def)

lemma edgesLoop_symmetric:
  assumes "edgesLoop g df bi fr es ts = Inr ts'" "\<forall>r c. tsum ts r c = tsum ts c r"
  shows "\<forall>r c. tsum ts' r c = tsum ts' c r"
  using assms
proof (induction es arbitrary: ts)
  case Nil
  then show ?case by simp
next
  case (Cons e es)
  from computeOmega_nonnull[of g df fr e 0] obtain omega flag where
    om: "computeOmega g df fr e (Some 0) = Inr (omega, 0, flag)" by blast
  with Cons.prems(1) have run: "edgesLoop g df bi fr es (ts @ edgeTriplets g bi e omega flag) = Inr ts'"
    by simp
  have "\<forall>r c. tsum (ts @ edgeTriplets g bi e omega flag) r c = tsum (ts @ edgeTriplets g bi e omega flag) c r"
    using Cons.prems(2) edgeTriplets_symmetric[of g bi e omega flag] by (simp add: tsum_append)
  from Cons.IH[OF run this] show ?case .
qed

lemma edgesLoop_total: "\<exists>ts'. edgesLoop g df bi fr es ts = Inr ts'"
proof (induction es arbitrary: ts)
  case Nil
  then show ?case by simp
next
  case (Cons e es)
  from computeOmega_nonnull[of g df fr e 0] obtain omega flag where
    om: "computeOmega g df fr e (Some 0) = Inr (omega, 0, flag)" by blast
  then show ?case using Cons.IH by simp
qed

text \<open>
  C5. For every mesh, direction field, branch indices and frequencies,
  \<^verbatim>\<open>buildVertexEnergyMatrix\<close> returns a matrix, the shift of the diagonal by \<open>1e-4\<close>
  included, that equals its own transpose.
\<close>

theorem energy_matrix_symmetric:
  "\<exists>A. buildVertexEnergyMatrix g df bi fr = Inr A \<and> transposeM A = A"
proof -
  from edgesLoop_total[of g df bi fr "edges (mesh g)" "[]"] obtain ts where
    ts: "edgesLoop g df bi fr (edges (mesh g)) [] = Inr ts" by blast
  have sym: "\<forall>r c. tsum ts r c = tsum ts c r"
    by (rule edgesLoop_symmetric[OF ts]) (simp add: tsum_def)
  let ?n = "2 * length (vertices (mesh g))"
  let ?A = "shiftDiagonal (1 / 10 ^ 4) (setFromTriplets ?n ?n ts)"
  have "buildVertexEnergyMatrix g df bi fr = Inr ?A"
    by (simp add: buildVertexEnergyMatrix_def ts Let_def)
  moreover have "transposeM ?A = ?A"
    using sym by (auto simp: transposeM_def shiftDiagonal_def setFromTriplets_def tsum_def fun_eq_iff)
  ultimately show ?thesis by blast
qed

text \<open>
  C8. For every edge, the cotangent weight \<open>w\<close> of the assembler is the sum of the
  cotangent weights of the one or two triangles incident to the edge (two when the edge
  is not a boundary edge), a triangle counting if and only if its branch index is 0;
  this \<open>w\<close> is the value of the four diagonal triplets of the edge.
\<close>

theorem cotan_weight_sums_regular_triangles:
  "cotanWeight g bi e = spec_cotan_weight g bi e
   \<and> (\<exists>i j z. edgeTriplets g bi e omega flag =
        [(i, i, spec_cotan_weight g bi e), (i + 1, i + 1, spec_cotan_weight g bi e),
         (j, j, spec_cotan_weight g bi e), (j + 1, j + 1, spec_cotan_weight g bi e)] @ z)"
proof -
  have eq: "cotanWeight g bi e = spec_cotan_weight g bi e"
    by (simp add: cotanWeight_def spec_cotan_weight_def incidentTriangles_def Let_def)
  show ?thesis unfolding eq[symmetric] by (simp add: edgeTriplets_def Let_def eq)
qed

subsection \<open>The out-pointer\<close>

lemma faceTextureCoordinates_total:
  "\<exists>r. faceTextureCoordinates g df fr param f = Inr r"
proof -
  let ?m = "mesh g"
  obtain o1 f1 where a: "computeOmega g df fr (edge ?m (face_halfedge ?m f)) (Some 0) = Inr (o1, 0, f1)"
    using computeOmega_nonnull by blast
  obtain o2 f2 where b: "computeOmega g df fr (edge ?m (next ?m (face_halfedge ?m f))) (Some 1) = Inr (o2, 1, f2)"
    using computeOmega_nonnull by blast
  obtain o3 f3 where c: "computeOmega g df fr (edge ?m (next ?m (next ?m (face_halfedge ?m f)))) (Some 2) = Inr (o3, 2, f3)"
    using computeOmega_nonnull by blast
  show ?thesis unfolding faceTextureCoordinates_def Let_def a b c by simp
qed

lemma textureLoop_total: "\<exists>r. textureLoop g df fr param fs st = Inr r"
proof (induction fs arbitrary: st)
  case Nil
  then show ?case by simp
next
  case (Cons f fs)
  obtain tc pidx where st: "st = (tc, pidx)" by (cases st)
  from faceTextureCoordinates_total[of g df fr param f] obtain aI aJ aK idx where
    "faceTextureCoordinates g df fr param f = Inr ((aI, aJ, aK), idx)" by (metis prod_cases3 prod.collapse)
  then show ?case using Cons.IH by (simp add: st Let_def)
qed

text \<open>
  C9. \<^verbatim>\<open>computeOmega\<close> writes through its out-pointer whatever its other arguments are:
  with the null pointer, its default, it ends in a null dereference, with any other it
  returns. Both callers, the energy assembly and the extraction of the texture
  coordinates, pass the address of a local variable, and neither ever ends in that
  error.
\<close>

theorem null_dereference_unreachable:
  "computeOmega g df fr e None = Inl null_dereference
   \<and> (\<exists>omega flag. computeOmega g df fr e (Some a) = Inr (omega, a, flag))
   \<and> (\<exists>A. buildVertexEnergyMatrix g df bi fr = Inr A)
   \<and> (\<exists>r. computeTextureCoordinates g df fr param = Inr r)"
proof -
  from edgesLoop_total[of g df bi fr "edges (mesh g)" "[]"]
  have "\<exists>A. buildVertexEnergyMatrix g df bi fr = Inr A"
    by (auto simp: buildVertexEnergyMatrix_def Let_def)
  then show ?thesis
    using computeOmega_null computeOmega_nonnull textureLoop_total
    by (simp add: computeTextureCoordinates_def)
qed

end
